theory Spec2Isabelle
  imports Complex_Main
begin

section \<open>Cell values, records and strings\<close>

text \<open>
  The two route handlers receive parsed JSON: arrays of objects whose fields hold scalar
  cells. A cell is a tagged value. The handlers never do arithmetic on a number; the only
  thing they read of it is its string conversion, so a number cell carries that rendering
  (the result of the language's number-to-string conversion) as its content.
  A value that is not a scalar (an object or a function) is likewise carried by its string
  conversion; no parsed cell is one, but reading a key can yield one, see below.
  Strings are sequences of code units below 256; trimming and lower-casing are the
  language's built-ins restricted to that range.
\<close>

datatype jsvalue = JUndefined | JNull | JBool bool | JNum string | JStr string | JObject string

text \<open>A row maps the keys it owns to their cells.\<close>

type_synonym row = "string \<rightharpoonup> jsvalue"

text \<open>
  A key that a row does not own is looked up on the prototype of plain objects, which has
  the accessor \<^verbatim>\<open>__proto__\<close> and eleven functions, rendered here as the runtime of the
  handlers prints them. Any other key reads as \<^verbatim>\<open>undefined\<close>.
\<close>

definition inheritedProperty :: "string \<Rightarrow> jsvalue" where
  "inheritedProperty col =
     (if col = ''__proto__'' then JObject ''[object Object]''
      else if col = ''constructor'' then JObject ''function Object() { [native code] }''
      else if col \<in> set [''__defineGetter__'', ''__defineSetter__'', ''__lookupGetter__'',
                           ''__lookupSetter__'', ''hasOwnProperty'', ''isPrototypeOf'',
                           ''propertyIsEnumerable'', ''toLocaleString'', ''toString'',
                           ''valueOf'']
      then JObject (''function '' @ col @ ''() { [native code] }'')
      else JUndefined)"

text \<open>\<^verbatim>\<open>row[col]\<close>.\<close>

definition getField :: "row \<Rightarrow> string \<Rightarrow> jsvalue" where
  "getField r col = (case r col of None \<Rightarrow> inheritedProperty col | Some v \<Rightarrow> v)"

text \<open>\<^verbatim>\<open>String(value)\<close>.\<close>

fun toString :: "jsvalue \<Rightarrow> string" where
  "toString JUndefined = ''undefined''"
| "toString JNull = ''null''"
| "toString (JBool b) = (if b then ''true'' else ''false'')"
| "toString (JNum s) = s"
| "toString (JStr s) = s"
| "toString (JObject s) = s"

text \<open>
  White space of \<^verbatim>\<open>String.prototype.trim\<close> below code unit 256: TAB, LF, VT, FF, CR,
  SPACE and NO-BREAK SPACE.
\<close>

definition isWhiteSpace :: "char \<Rightarrow> bool" where
  "isWhiteSpace c = ((of_char c :: nat) \<in> {9, 10, 11, 12, 13, 32, 160})"

definition trim :: "string \<Rightarrow> string" where
  "trim s = rev (dropWhile isWhiteSpace (rev (dropWhile isWhiteSpace s)))"

text \<open>
  \<^verbatim>\<open>String.prototype.toLowerCase\<close> below code unit 256: A-Z and the accented capitals
  192-222 (except the multiplication sign 215) move up by 32.
\<close>

definition lowerChar :: "char \<Rightarrow> char" where
  "lowerChar c =
     (let n = (of_char c :: nat)
      in if (65 \<le> n \<and> n \<le> 90) \<or> (192 \<le> n \<and> n \<le> 222 \<and> n \<noteq> 215)
         then char_of (n + 32) else c)"

definition toLowerCase :: "string \<Rightarrow> string" where
  "toLowerCase s = map lowerChar s"

text \<open>\<^verbatim>\<open>Array.prototype.join\<close> on an array of strings.\<close>

fun join :: "string \<Rightarrow> string list \<Rightarrow> string" where
  "join sep [] = []"
| "join sep [x] = x"
| "join sep (x # y # ys) = x @ sep @ join sep (y # ys)"

section \<open>Signatures (process-excel)\<close>

text \<open>The callback of \<^verbatim>\<open>columns.map\<close> inside \<^verbatim>\<open>createSignature\<close>.\<close>

definition signatureValue :: "jsvalue \<Rightarrow> string" where
  "signatureValue v =
     (if v = JNull \<or> v = JUndefined then ''NULL''
      else toLowerCase (trim (toString v)))"

definition createSignature :: "row \<Rightarrow> string list \<Rightarrow> string" where
  "createSignature r columns = join '' '' (map (\<lambda>col. signatureValue (getField r col)) columns)"

section \<open>Exact duplicate removal (process-excel)\<close>

record DuplicateInfo =
  original :: string
  duplicate :: string
  originalIndex :: nat
  duplicateIndex :: nat
  score :: "real option"

record 'r RemoveDuplicatesResult =
  uniqueRows :: "'r list"
  duplicatesFound :: "DuplicateInfo list"

text \<open>
  The loop of \<^verbatim>\<open>removeExactDuplicates\<close>: the rows still to visit, the index \<open>i\<close> of the
  first of them, and the three accumulators \<open>seen\<close>, \<open>uniqueRows\<close>, \<open>duplicatesFound\<close>.
\<close>

type_synonym exact_state = "(string \<rightharpoonup> nat) \<times> row list \<times> DuplicateInfo list"

fun exactStep :: "string list \<Rightarrow> exact_state \<Rightarrow> nat \<Rightarrow> row \<Rightarrow> exact_state" where
  "exactStep columns (seen, uniq, dups) i r =
     (let signature = createSignature r columns
      in case seen signature of
           None \<Rightarrow> (seen(signature \<mapsto> i), uniq @ [r], dups)
         | Some j \<Rightarrow>
             (seen, uniq,
              dups @ [\<lparr>original = signature, duplicate = signature,
                       originalIndex = j, duplicateIndex = i, score = None\<rparr>]))"

fun exactLoop :: "string list \<Rightarrow> row list \<Rightarrow> nat \<Rightarrow> exact_state \<Rightarrow> exact_state" where
  "exactLoop columns [] i st = st"
| "exactLoop columns (r # rest) i st = exactLoop columns rest (Suc i) (exactStep columns st i r)"

definition removeExactDuplicates :: "row list \<Rightarrow> string list \<Rightarrow> row RemoveDuplicatesResult" where
  "removeExactDuplicates data columns =
     (case exactLoop columns data 0 (Map.empty, [], []) of
        (seen, uniq, dups) \<Rightarrow> \<lparr>uniqueRows = uniq, duplicatesFound = dups\<rparr>)"

section \<open>The string-similarity package\<close>

text \<open>
  Both handlers import the package \<^verbatim>\<open>natural\<close> and call three of its functions. The
  package is not part of this repository, so the handlers are modelled against any
  implementation of the three functions. Scores and thresholds are real numbers: the
  rounding of floating-point division is not modelled.
\<close>

record natural_lib =
  DiceCoefficient :: "string \<Rightarrow> string \<Rightarrow> real"
  JaroWinklerDistance :: "string \<Rightarrow> string \<Rightarrow> real"
  LevenshteinDistance :: "string \<Rightarrow> string \<Rightarrow> nat"

datatype ComparisonMode = Exact | Fuzzy

datatype SimilarityAlgorithm = Dice | JaroWinkler | Levenshtein

section \<open>Fuzzy duplicate removal (process-excel)\<close>

text \<open>
  \<^verbatim>\<open>calculateSimilarity\<close> of process-excel. The \<^verbatim>\<open>default\<close> branch of the switch is
  unreachable for the three declared algorithm names.
\<close>

definition pe_calculateSimilarity ::
  "natural_lib \<Rightarrow> string \<Rightarrow> string \<Rightarrow> SimilarityAlgorithm \<Rightarrow> real" where
  "pe_calculateSimilarity lib str1 str2 algorithm =
     (case algorithm of
        Dice \<Rightarrow> DiceCoefficient lib str1 str2
      | JaroWinkler \<Rightarrow> JaroWinklerDistance lib str1 str2
      | Levenshtein \<Rightarrow>
          (let maxLen = max (length str1) (length str2)
           in if maxLen = 0 then 1
              else 1 - real (LevenshteinDistance lib str1 str2) / real maxLen))"

text \<open>An element of \<^verbatim>\<open>uniqueSignatures\<close>, the local \<^verbatim>\<open>bestMatch\<close>, and the result.\<close>

record SignatureEntry =
  signature :: string
  index :: nat

record BestSignature =
  bestSignature :: string
  bestIndex :: nat
  bestScore :: real

record MatchResult =
  matchedSignature :: string
  matchedIndex :: nat
  matchedScore :: real

fun findSimilarMatchLoop ::
  "natural_lib \<Rightarrow> string \<Rightarrow> SignatureEntry list \<Rightarrow> real \<Rightarrow> SimilarityAlgorithm
     \<Rightarrow> BestSignature option \<Rightarrow> BestSignature option" where
  "findSimilarMatchLoop lib sg [] threshold algorithm bestMatch = bestMatch"
| "findSimilarMatchLoop lib sg (existing # rest) threshold algorithm bestMatch =
     (let sc = pe_calculateSimilarity lib sg (signature existing) algorithm
      in findSimilarMatchLoop lib sg rest threshold algorithm
           (if sc \<ge> threshold \<and> (case bestMatch of None \<Rightarrow> True | Some b \<Rightarrow> sc > bestScore b)
            then Some \<lparr>bestSignature = signature existing, bestIndex = index existing,
                        bestScore = sc\<rparr>
            else bestMatch))"

definition findSimilarMatch ::
  "natural_lib \<Rightarrow> string \<Rightarrow> SignatureEntry list \<Rightarrow> real \<Rightarrow> SimilarityAlgorithm
     \<Rightarrow> MatchResult option" where
  "findSimilarMatch lib sg existingSignatures threshold algorithm =
     (if existingSignatures = [] then None
      else case findSimilarMatchLoop lib sg existingSignatures threshold algorithm None of
             Some b \<Rightarrow> Some \<lparr>matchedSignature = bestSignature b, matchedIndex = bestIndex b,
                              matchedScore = bestScore b\<rparr>
           | None \<Rightarrow> None)"

text \<open>
  The loop of \<^verbatim>\<open>removeFuzzyDuplicates\<close>, with its accumulators \<open>uniqueRows\<close>,
  \<open>uniqueSignatures\<close> and \<open>duplicatesFound\<close>.
\<close>

type_synonym fuzzy_state = "row list \<times> SignatureEntry list \<times> DuplicateInfo list"

fun fuzzyStep ::
  "natural_lib \<Rightarrow> string list \<Rightarrow> real \<Rightarrow> SimilarityAlgorithm \<Rightarrow> fuzzy_state \<Rightarrow> nat \<Rightarrow> row
     \<Rightarrow> fuzzy_state" where
  "fuzzyStep lib columns threshold algorithm (uniq, sigs, dups) i r =
     (let sg = createSignature r columns
      in case findSimilarMatch lib sg sigs threshold algorithm of
           None \<Rightarrow> (uniq @ [r], sigs @ [\<lparr>signature = sg, index = i\<rparr>], dups)
         | Some m \<Rightarrow>
             (uniq, sigs,
              dups @ [\<lparr>original = matchedSignature m, duplicate = sg,
                       originalIndex = matchedIndex m, duplicateIndex = i,
                       score = Some (matchedScore m)\<rparr>]))"

fun fuzzyLoop ::
  "natural_lib \<Rightarrow> string list \<Rightarrow> real \<Rightarrow> SimilarityAlgorithm \<Rightarrow> row list \<Rightarrow> nat
     \<Rightarrow> fuzzy_state \<Rightarrow> fuzzy_state" where
  "fuzzyLoop lib columns threshold algorithm [] i st = st"
| "fuzzyLoop lib columns threshold algorithm (r # rest) i st =
     fuzzyLoop lib columns threshold algorithm rest (Suc i)
       (fuzzyStep lib columns threshold algorithm st i r)"

definition removeFuzzyDuplicates ::
  "natural_lib \<Rightarrow> row list \<Rightarrow> string list \<Rightarrow> real \<Rightarrow> SimilarityAlgorithm
     \<Rightarrow> row RemoveDuplicatesResult" where
  "removeFuzzyDuplicates lib data columns threshold algorithm =
     (case fuzzyLoop lib columns threshold algorithm data 0 ([], [], []) of
        (uniq, sigs, dups) \<Rightarrow> \<lparr>uniqueRows = uniq, duplicatesFound = dups\<rparr>)"

definition removeDuplicateRows ::
  "natural_lib \<Rightarrow> row list \<Rightarrow> string list \<Rightarrow> ComparisonMode \<Rightarrow> real \<Rightarrow> SimilarityAlgorithm
     \<Rightarrow> row RemoveDuplicatesResult" where
  "removeDuplicateRows lib data columns comparisonMode threshold algorithm =
     (if comparisonMode = Exact then removeExactDuplicates data columns
      else removeFuzzyDuplicates lib data columns threshold algorithm)"

section \<open>The process-excel handler\<close>

text \<open>\<^verbatim>\<open>Array.prototype.slice\<close> with integer bounds: a negative bound counts from the end.\<close>

definition relativeIndex :: "int \<Rightarrow> nat \<Rightarrow> nat" where
  "relativeIndex k len = (if k < 0 then nat (max (int len + k) 0) else min (nat k) len)"

definition slice :: "'a list \<Rightarrow> int \<Rightarrow> int \<Rightarrow> 'a list" where
  "slice xs start fin =
     (let k = relativeIndex start (length xs); final = relativeIndex fin (length xs)
      in take (final - k) (drop k xs))"

text \<open>
  The element conversion of \<^verbatim>\<open>Array.prototype.join\<close>: \<^verbatim>\<open>undefined\<close> and \<^verbatim>\<open>null\<close> give
  the empty string.
\<close>

definition joinItem :: "jsvalue \<Rightarrow> string" where
  "joinItem v = (if v = JUndefined \<or> v = JNull then [] else toString v)"

text \<open>The callback of \<^verbatim>\<open>rawUniqueRows.map\<close>: a spread copy of the row with \<open>isni\<close> set.\<close>

definition isniAnnotation :: "row \<Rightarrow> string list \<Rightarrow> string" where
  "isniAnnotation r columns =
     (let mergeColumns = join '' '' (map (\<lambda>col. joinItem (getField r col)) columns);
          isniLink = ''https://isni.oclc.org/sru/?query=pica.nw+%3D+%22'' @ mergeColumns
                       @ ''%22&operation=searchRetrieve&recordSchema=isni-b''
      in ''<a href='' @ isniLink @ ''>'' @ mergeColumns @ ''</a>'')"

definition withIsni :: "string list \<Rightarrow> row \<Rightarrow> row" where
  "withIsni columns r = r(''isni'' \<mapsto> JStr (isniAnnotation r columns))"

text \<open>
  The request body after \<^verbatim>\<open>request.json()\<close>. A field that is absent is \<open>None\<close>; for
  \<open>data\<close> and \<open>columns\<close>, \<open>None\<close> also stands for a value that is not an array. Slice
  bounds are integers. The type parameter is the representation of a row.
\<close>

record 'r ProcessRequest =
  data :: "'r list option"
  columns :: "string list option"
  comparisonMode :: "ComparisonMode option"
  similarityThreshold :: "real option"
  similarityAlgorithm :: "SimilarityAlgorithm option"
  sliceStart :: "int option"
  sliceEnd :: "int option"

record 'r ProcessResult = "'r RemoveDuplicatesResult" +
  originalCount :: int
  uniqueCount :: int
  removedCount :: int

datatype 'a response = ErrorResponse string nat | JsonResponse 'a

text \<open>
  \<^verbatim>\<open>POST\<close> of process-excel. With rows that are objects of scalar cells nothing in the
  body throws, so the \<^verbatim>\<open>catch\<close> branch (status 500) is not reached.
\<close>

definition pe_POST :: "natural_lib \<Rightarrow> row ProcessRequest \<Rightarrow> row ProcessResult response" where
  "pe_POST lib body =
     (let mode = (case comparisonMode body of None \<Rightarrow> Fuzzy | Some m \<Rightarrow> m);
          threshold = (case ProcessRequest.similarityThreshold body of None \<Rightarrow> 0.8 | Some t \<Rightarrow> t);
          algorithm = (case ProcessRequest.similarityAlgorithm body of None \<Rightarrow> JaroWinkler | Some a \<Rightarrow> a);
          start = (case sliceStart body of None \<Rightarrow> 0 | Some s \<Rightarrow> s)
      in (case data body of
            None \<Rightarrow> ErrorResponse ''Invalid or empty data'' 400
          | Some d \<Rightarrow>
              (if d = [] then ErrorResponse ''Invalid or empty data'' 400
               else (case columns body of
                       None \<Rightarrow> ErrorResponse ''No columns selected'' 400
                     | Some cols \<Rightarrow>
                         (if cols = [] then ErrorResponse ''No columns selected'' 400
                          else (let endIndex = (case sliceEnd body of None \<Rightarrow> int (length d) | Some e \<Rightarrow> e);
                                    slicedData = slice d start endIndex;
                                    res = removeDuplicateRows lib slicedData cols mode threshold algorithm;
                                    uniq = map (withIsni cols) (uniqueRows res)
                                in JsonResponse
                                     \<lparr>uniqueRows = uniq,
                                      duplicatesFound = duplicatesFound res,
                                      originalCount = int (length d),
                                      uniqueCount = int (length uniq),
                                      removedCount = int (length d) - int (length uniq)\<rparr>))))))"

section \<open>The match-columns handler\<close>

definition normalizeValue :: "jsvalue \<Rightarrow> string" where
  "normalizeValue v =
     (if v = JNull \<or> v = JUndefined then [] else toLowerCase (trim (toString v)))"

text \<open>
  \<^verbatim>\<open>calculateSimilarity\<close> of match-columns: an empty string on either side scores 0 before
  the switch.
\<close>

definition mc_calculateSimilarity ::
  "natural_lib \<Rightarrow> string \<Rightarrow> string \<Rightarrow> SimilarityAlgorithm \<Rightarrow> real" where
  "mc_calculateSimilarity lib str1 str2 algorithm =
     (if str1 = [] \<or> str2 = [] then 0
      else (case algorithm of
              Dice \<Rightarrow> DiceCoefficient lib str1 str2
            | JaroWinkler \<Rightarrow> JaroWinklerDistance lib str1 str2
            | Levenshtein \<Rightarrow>
                (let maxLen = max (length str1) (length str2)
                 in if maxLen = 0 then 1
                    else 1 - real (LevenshteinDistance lib str1 str2) / real maxLen)))"

text \<open>
  \<^verbatim>\<open>File2Entry\<close> (fields \<^verbatim>\<open>index\<close>, \<^verbatim>\<open>value\<close>, \<^verbatim>\<open>row\<close>) and the local \<^verbatim>\<open>bestMatch\<close>
  (fields \<^verbatim>\<open>index\<close>, \<^verbatim>\<open>score\<close>, \<^verbatim>\<open>row\<close>).
\<close>

record File2Entry =
  entryIndex :: nat
  entryValue :: string
  entryRow :: row

record BestMatch =
  matchIndex :: nat
  matchScore :: real
  matchRow :: row

text \<open>
  \<^verbatim>\<open>findBestMatch\<close>. The second component of the result records the effect the loop has
  besides its value: the candidates handed to \<^verbatim>\<open>calculateSimilarity\<close>, in call order.
\<close>

fun findBestMatchLoop ::
  "natural_lib \<Rightarrow> string \<Rightarrow> File2Entry list \<Rightarrow> real \<Rightarrow> SimilarityAlgorithm
     \<Rightarrow> BestMatch option \<times> File2Entry list \<Rightarrow> BestMatch option \<times> File2Entry list" where
  "findBestMatchLoop lib searchValue [] threshold algorithm st = st"
| "findBestMatchLoop lib searchValue (entry # rest) threshold algorithm (bestMatch, scored) =
     (let sc = mc_calculateSimilarity lib searchValue (entryValue entry) algorithm
      in findBestMatchLoop lib searchValue rest threshold algorithm
           (if sc \<ge> threshold \<and> (case bestMatch of None \<Rightarrow> True | Some b \<Rightarrow> sc > matchScore b)
            then Some \<lparr>matchIndex = entryIndex entry, matchScore = sc, matchRow = entryRow entry\<rparr>
            else bestMatch,
            scored @ [entry]))"

definition findBestMatch ::
  "natural_lib \<Rightarrow> string \<Rightarrow> File2Entry list \<Rightarrow> real \<Rightarrow> SimilarityAlgorithm
     \<Rightarrow> BestMatch option \<times> File2Entry list" where
  "findBestMatch lib searchValue file2Values threshold algorithm =
     (if searchValue = [] then (None, [])
      else findBestMatchLoop lib searchValue file2Values threshold algorithm (None, []))"

text \<open>
  \<^verbatim>\<open>obj[col] = v\<close> on a plain object, given as the fields it owns and a flag telling
  whether its prototype has been replaced by \<^verbatim>\<open>null\<close>. While the object inherits the
  accessor \<^verbatim>\<open>__proto__\<close> and does not own such a field, an assignment to \<^verbatim>\<open>__proto__\<close>
  goes to the setter: it gives the object no field, and the value \<^verbatim>\<open>null\<close> replaces the
  prototype (the other value a row can hold under this key is the prototype the object
  already has; a scalar is ignored). Every other assignment sets a field of the object.
\<close>

definition assignField :: "row \<times> bool \<Rightarrow> string \<Rightarrow> jsvalue \<Rightarrow> row \<times> bool" where
  "assignField ob col v =
     (case ob of
        (obj, nullProto) \<Rightarrow>
          (if col = ''__proto__'' \<and> obj col = None \<and> \<not> nullProto
           then (obj, v = JNull)
           else (obj(col \<mapsto> v), nullProto)))"

text \<open>The object built by \<^verbatim>\<open>for (const col of cols) obj[col] = r[col]\<close> from \<^verbatim>\<open>{}\<close>.\<close>

definition additionalData :: "row \<Rightarrow> string list \<Rightarrow> row" where
  "additionalData r cols =
     fst (foldl (\<lambda>ob col. assignField ob col (getField r col)) (Map.empty, False) cols)"

text \<open>\<^verbatim>\<open>v ?? null\<close>.\<close>

definition orNull :: "jsvalue \<Rightarrow> jsvalue" where
  "orNull v = (if v = JUndefined \<or> v = JNull then JNull else v)"

record MatchEntry =
  file1RowIndex :: nat
  file2RowIndex :: "nat option"
  file1Value :: jsvalue
  file2Value :: jsvalue
  score :: real
  file1AdditionalData :: row
  file2AdditionalData :: row

record 'r MatchRequest =
  file1Data :: "'r list option"
  file2Data :: "'r list option"
  file1Column :: "string option"
  file2Column :: "string option"
  file1AdditionalColumns :: "string list option"
  file2AdditionalColumns :: "string list option"
  similarityThreshold :: "real option"
  similarityAlgorithm :: "SimilarityAlgorithm option"

record MatchResponse =
  matches :: "MatchEntry list"
  totalFile1Rows :: nat
  totalFile2Rows :: nat
  matchedCount :: nat
  unmatchedCount :: nat

text \<open>The values of the request that the loop of \<^verbatim>\<open>POST\<close> reads.\<close>

record MatchParams =
  pFile2Values :: "File2Entry list"
  pFile1Column :: string
  pFile2Column :: string
  pFile1Additional :: "string list"
  pFile2Additional :: "string list"
  pThreshold :: real
  pAlgorithm :: SimilarityAlgorithm

type_synonym match_state = "MatchEntry list \<times> nat \<times> nat"

fun matchStep :: "natural_lib \<Rightarrow> MatchParams \<Rightarrow> match_state \<Rightarrow> nat \<Rightarrow> row \<Rightarrow> match_state" where
  "matchStep lib p (ms, matched, unmatched) i file1Row =
     (let v1 = normalizeValue (getField file1Row (pFile1Column p));
          bestMatch = fst (findBestMatch lib v1 (pFile2Values p) (pThreshold p) (pAlgorithm p));
          add1 = additionalData file1Row (pFile1Additional p)
      in (case bestMatch of
            Some b \<Rightarrow>
              (ms @ [\<lparr>file1RowIndex = i, file2RowIndex = Some (matchIndex b),
                      file1Value = getField file1Row (pFile1Column p),
                      file2Value = orNull (getField (matchRow b) (pFile2Column p)),
                      score = matchScore b,
                      file1AdditionalData = add1,
                      file2AdditionalData = additionalData (matchRow b) (pFile2Additional p)\<rparr>],
               matched + 1, unmatched)
          | None \<Rightarrow>
              (ms @ [\<lparr>file1RowIndex = i, file2RowIndex = None,
                      file1Value = getField file1Row (pFile1Column p),
                      file2Value = JNull,
                      score = 0,
                      file1AdditionalData = add1,
                      file2AdditionalData = Map.empty\<rparr>],
               matched, unmatched + 1)))"

fun matchLoop :: "natural_lib \<Rightarrow> MatchParams \<Rightarrow> row list \<Rightarrow> nat \<Rightarrow> match_state \<Rightarrow> match_state" where
  "matchLoop lib p [] i st = st"
| "matchLoop lib p (r # rest) i st = matchLoop lib p rest (Suc i) (matchStep lib p st i r)"

text \<open>\<^verbatim>\<open>file2Data.map((row, index) => ...)\<close>.\<close>

definition file2ValuesOf :: "row list \<Rightarrow> string \<Rightarrow> File2Entry list" where
  "file2ValuesOf rows col =
     map (\<lambda>(i, r). \<lparr>entryIndex = i, entryValue = normalizeValue (getField r col), entryRow = r\<rparr>)
       (enumerate 0 rows)"

text \<open>
  \<^verbatim>\<open>POST\<close> of match-columns; \<^verbatim>\<open>!file1Column\<close> holds for an absent and for an empty
  column name.
\<close>

definition mc_POST :: "natural_lib \<Rightarrow> row MatchRequest \<Rightarrow> MatchResponse response" where
  "mc_POST lib body =
     (let add1 = (case file1AdditionalColumns body of None \<Rightarrow> [] | Some c \<Rightarrow> c);
          add2 = (case file2AdditionalColumns body of None \<Rightarrow> [] | Some c \<Rightarrow> c);
          threshold = (case similarityThreshold body of None \<Rightarrow> 0.8 | Some t \<Rightarrow> t);
          algorithm = (case similarityAlgorithm body of None \<Rightarrow> Dice | Some a \<Rightarrow> a)
      in (case file1Data body of
            None \<Rightarrow> ErrorResponse ''Invalid or empty data for file 1'' 400
          | Some f1 \<Rightarrow>
              (if f1 = [] then ErrorResponse ''Invalid or empty data for file 1'' 400
               else (case file2Data body of
                       None \<Rightarrow> ErrorResponse ''Invalid or empty data for file 2'' 400
                     | Some f2 \<Rightarrow>
                         (if f2 = [] then ErrorResponse ''Invalid or empty data for file 2'' 400
                          else (case (file1Column body, file2Column body) of
                                  (Some c1, Some c2) \<Rightarrow>
                                    (if c1 = [] \<or> c2 = []
                                     then ErrorResponse ''Please select a column from each file'' 400
                                     else (case matchLoop lib
                                                  \<lparr>pFile2Values = file2ValuesOf f2 c2,
                                                   pFile1Column = c1, pFile2Column = c2,
                                                   pFile1Additional = add1, pFile2Additional = add2,
                                                   pThreshold = threshold, pAlgorithm = algorithm\<rparr>
                                                  f1 0 ([], 0, 0) of
                                             (ms, matched, unmatched) \<Rightarrow>
                                               JsonResponse
                                                 \<lparr>matches = ms,
                                                  totalFile1Rows = length f1,
                                                  totalFile2Rows = length f2,
                                                  matchedCount = matched,
                                                  unmatchedCount = unmatched\<rparr>))
                                | _ \<Rightarrow> ErrorResponse ''Please select a column from each file'' 400))))))"

section \<open>Rows as objects in a store\<close>

text \<open>
  Rows are objects, and the handlers receive references to them. To follow what a handler
  does to the objects it is given, both handlers are written a second time over
  references into a store, statement by statement: reading a field, creating an object
  and assigning to a field of an object are operations on the store, and every statement
  of a loop body takes the store and gives back the store it leaves. The store lists the
  objects with fields from column names to cells (input rows, returned rows, the
  additional-data objects). Arrays, the map of seen signatures and the report entries are
  local to one call, hold no cell of their own, and stay values.
\<close>

type_synonym store = "row list"

type_synonym ref = nat

text \<open>A new object gets the next free address.\<close>

definition alloc :: "store \<Rightarrow> row \<Rightarrow> store \<times> ref" where
  "alloc h obj = (h @ [obj], length h)"

text \<open>
  \<^verbatim>\<open>obj[col]\<close> for the object at address \<open>a\<close>. The handlers read rows of the request only,
  and these have the prototype of plain objects.
\<close>

definition readField :: "store \<Rightarrow> ref \<Rightarrow> string \<Rightarrow> jsvalue" where
  "readField h a col = getField (h ! a) col"

text \<open>
  \<^verbatim>\<open>obj[col] = v\<close> for the object at address \<open>a\<close>. The handlers assign only to an object
  while they fill it, right after creating it; the flag for its prototype is kept beside
  the store for that time.
\<close>

definition writeField :: "store \<times> bool \<Rightarrow> ref \<Rightarrow> string \<Rightarrow> jsvalue \<Rightarrow> store \<times> bool" where
  "writeField hs a col v =
     (case hs of
        (h, nullProto) \<Rightarrow>
          (case assignField (h ! a, nullProto) col v of
             (obj, nullProto') \<Rightarrow> (h[a := obj], nullProto')))"

subsection \<open>process-excel over the store\<close>

definition createSignature_store :: "store \<Rightarrow> ref \<Rightarrow> string list \<Rightarrow> string" where
  "createSignature_store h r cols =
     join '' '' (map (\<lambda>col. signatureValue (readField h r col)) cols)"

type_synonym exact_state_store =
  "store \<times> (string \<rightharpoonup> nat) \<times> ref list \<times> DuplicateInfo list"

fun exactStep_store ::
  "string list \<Rightarrow> exact_state_store \<Rightarrow> nat \<Rightarrow> ref \<Rightarrow> exact_state_store" where
  "exactStep_store cols (h, seen, uniq, dups) i r =
     (let sg = createSignature_store h r cols
      in case seen sg of
           None \<Rightarrow> (h, seen(sg \<mapsto> i), uniq @ [r], dups)
         | Some j \<Rightarrow>
             (h, seen, uniq,
              dups @ [\<lparr>original = sg, duplicate = sg,
                       originalIndex = j, duplicateIndex = i,
                       DuplicateInfo.score = None\<rparr>]))"

fun exactLoop_store ::
  "string list \<Rightarrow> ref list \<Rightarrow> nat \<Rightarrow> exact_state_store \<Rightarrow> exact_state_store" where
  "exactLoop_store cols [] i st = st"
| "exactLoop_store cols (r # rest) i st =
     exactLoop_store cols rest (Suc i) (exactStep_store cols st i r)"

definition removeExactDuplicates_store ::
  "store \<Rightarrow> ref list \<Rightarrow> string list \<Rightarrow> store \<times> ref RemoveDuplicatesResult" where
  "removeExactDuplicates_store h refs cols =
     (case exactLoop_store cols refs 0 (h, Map.empty, [], []) of
        (h', seen, uniq, dups) \<Rightarrow> (h', \<lparr>uniqueRows = uniq, duplicatesFound = dups\<rparr>))"

type_synonym fuzzy_state_store =
  "store \<times> ref list \<times> SignatureEntry list \<times> DuplicateInfo list"

fun fuzzyStep_store ::
  "natural_lib \<Rightarrow> string list \<Rightarrow> real \<Rightarrow> SimilarityAlgorithm \<Rightarrow> fuzzy_state_store \<Rightarrow> nat
     \<Rightarrow> ref \<Rightarrow> fuzzy_state_store" where
  "fuzzyStep_store lib cols threshold algorithm (h, uniq, sigs, dups) i r =
     (let sg = createSignature_store h r cols
      in case findSimilarMatch lib sg sigs threshold algorithm of
           None \<Rightarrow> (h, uniq @ [r], sigs @ [\<lparr>signature = sg, index = i\<rparr>], dups)
         | Some m \<Rightarrow>
             (h, uniq, sigs,
              dups @ [\<lparr>original = matchedSignature m, duplicate = sg,
                       originalIndex = matchedIndex m, duplicateIndex = i,
                       DuplicateInfo.score = Some (matchedScore m)\<rparr>]))"

fun fuzzyLoop_store ::
  "natural_lib \<Rightarrow> string list \<Rightarrow> real \<Rightarrow> SimilarityAlgorithm \<Rightarrow> ref list \<Rightarrow> nat
     \<Rightarrow> fuzzy_state_store \<Rightarrow> fuzzy_state_store" where
  "fuzzyLoop_store lib cols threshold algorithm [] i st = st"
| "fuzzyLoop_store lib cols threshold algorithm (r # rest) i st =
     fuzzyLoop_store lib cols threshold algorithm rest (Suc i)
       (fuzzyStep_store lib cols threshold algorithm st i r)"

definition removeFuzzyDuplicates_store ::
  "natural_lib \<Rightarrow> store \<Rightarrow> ref list \<Rightarrow> string list \<Rightarrow> real \<Rightarrow> SimilarityAlgorithm
     \<Rightarrow> store \<times> ref RemoveDuplicatesResult" where
  "removeFuzzyDuplicates_store lib h refs cols threshold algorithm =
     (case fuzzyLoop_store lib cols threshold algorithm refs 0 (h, [], [], []) of
        (h', uniq, sigs, dups) \<Rightarrow> (h', \<lparr>uniqueRows = uniq, duplicatesFound = dups\<rparr>))"

definition removeDuplicateRows_store ::
  "natural_lib \<Rightarrow> store \<Rightarrow> ref list \<Rightarrow> string list \<Rightarrow> ComparisonMode \<Rightarrow> real
     \<Rightarrow> SimilarityAlgorithm \<Rightarrow> store \<times> ref RemoveDuplicatesResult" where
  "removeDuplicateRows_store lib h refs cols mode threshold algorithm =
     (if mode = Exact then removeExactDuplicates_store h refs cols
      else removeFuzzyDuplicates_store lib h refs cols threshold algorithm)"

text \<open>
  The callback of \<^verbatim>\<open>rawUniqueRows.map\<close>: it reads the selected fields of the row, and the
  object literal creates an object with the fields the row owns and then \<open>isni\<close>.
\<close>

definition withIsni_store :: "string list \<Rightarrow> store \<Rightarrow> ref \<Rightarrow> store \<times> ref" where
  "withIsni_store cols h r =
     (let mergeColumns = join '' '' (map (\<lambda>col. joinItem (readField h r col)) cols);
          isniLink = ''https://isni.oclc.org/sru/?query=pica.nw+%3D+%22'' @ mergeColumns
                       @ ''%22&operation=searchRetrieve&recordSchema=isni-b''
      in alloc h ((h ! r)(''isni'' \<mapsto>
                    JStr (''<a href='' @ isniLink @ ''>'' @ mergeColumns @ ''</a>''))))"

fun mapWithIsni_store :: "string list \<Rightarrow> store \<Rightarrow> ref list \<Rightarrow> store \<times> ref list" where
  "mapWithIsni_store cols h [] = (h, [])"
| "mapWithIsni_store cols h (r # rest) =
     (case withIsni_store cols h r of
        (h1, a) \<Rightarrow> (case mapWithIsni_store cols h1 rest of (h2, as) \<Rightarrow> (h2, a # as)))"

definition pe_POST_store ::
  "natural_lib \<Rightarrow> store \<Rightarrow> ref ProcessRequest \<Rightarrow> store \<times> ref ProcessResult response" where
  "pe_POST_store lib h body =
     (let mode = (case comparisonMode body of None \<Rightarrow> Fuzzy | Some m \<Rightarrow> m);
          threshold = (case ProcessRequest.similarityThreshold body of None \<Rightarrow> 0.8 | Some t \<Rightarrow> t);
          algorithm = (case ProcessRequest.similarityAlgorithm body of None \<Rightarrow> JaroWinkler | Some a \<Rightarrow> a);
          start = (case sliceStart body of None \<Rightarrow> 0 | Some s \<Rightarrow> s)
      in (case data body of
            None \<Rightarrow> (h, ErrorResponse ''Invalid or empty data'' 400)
          | Some d \<Rightarrow>
              (if d = [] then (h, ErrorResponse ''Invalid or empty data'' 400)
               else (case columns body of
                       None \<Rightarrow> (h, ErrorResponse ''No columns selected'' 400)
                     | Some cols \<Rightarrow>
                         (if cols = [] then (h, ErrorResponse ''No columns selected'' 400)
                          else (let endIndex = (case sliceEnd body of None \<Rightarrow> int (length d) | Some e \<Rightarrow> e);
                                    slicedData = slice d start endIndex
                                in (case removeDuplicateRows_store lib h slicedData cols mode
                                           threshold algorithm of
                                      (h1, res) \<Rightarrow>
                                        (case mapWithIsni_store cols h1 (uniqueRows res) of
                                           (h2, uniq) \<Rightarrow>
                                             (h2, JsonResponse
                                                    \<lparr>uniqueRows = uniq,
                                                     duplicatesFound = duplicatesFound res,
                                                     originalCount = int (length d),
                                                     uniqueCount = int (length uniq),
                                                     removedCount =
                                                       int (length d) - int (length uniq)\<rparr>)))))))))"

subsection \<open>match-columns over the store\<close>

text \<open>
  The entries of \<^verbatim>\<open>file2Values\<close> and the local \<^verbatim>\<open>bestMatch\<close> hold a reference to their
  row; a report entry holds references to its two additional-data objects.
\<close>

record File2Entry_store =
  sEntryIndex :: nat
  sEntryValue :: string
  sEntryRow :: ref

record BestMatch_store =
  sMatchIndex :: nat
  sMatchScore :: real
  sMatchRow :: ref

fun findBestMatchLoop_store ::
  "natural_lib \<Rightarrow> string \<Rightarrow> File2Entry_store list \<Rightarrow> real \<Rightarrow> SimilarityAlgorithm
     \<Rightarrow> BestMatch_store option \<Rightarrow> BestMatch_store option" where
  "findBestMatchLoop_store lib searchValue [] threshold algorithm bestMatch = bestMatch"
| "findBestMatchLoop_store lib searchValue (entry # rest) threshold algorithm bestMatch =
     (let sc = mc_calculateSimilarity lib searchValue (sEntryValue entry) algorithm
      in findBestMatchLoop_store lib searchValue rest threshold algorithm
           (if sc \<ge> threshold \<and> (case bestMatch of None \<Rightarrow> True | Some b \<Rightarrow> sc > sMatchScore b)
            then Some \<lparr>sMatchIndex = sEntryIndex entry, sMatchScore = sc,
                        sMatchRow = sEntryRow entry\<rparr>
            else bestMatch))"

definition findBestMatch_store ::
  "natural_lib \<Rightarrow> string \<Rightarrow> File2Entry_store list \<Rightarrow> real \<Rightarrow> SimilarityAlgorithm
     \<Rightarrow> BestMatch_store option" where
  "findBestMatch_store lib searchValue file2Values threshold algorithm =
     (if searchValue = [] then None
      else findBestMatchLoop_store lib searchValue file2Values threshold algorithm None)"

text \<open>\<^verbatim>\<open>for (const col of cols) obj[col] = src[col]\<close>.\<close>

fun copyFields_store ::
  "ref \<Rightarrow> ref \<Rightarrow> store \<times> bool \<Rightarrow> string list \<Rightarrow> store \<times> bool" where
  "copyFields_store obj src hs [] = hs"
| "copyFields_store obj src hs (col # rest) =
     copyFields_store obj src (writeField hs obj col (readField (fst hs) src col)) rest"

record MatchEntry_store =
  sFile1RowIndex :: nat
  sFile2RowIndex :: "nat option"
  sFile1Value :: jsvalue
  sFile2Value :: jsvalue
  sScore :: real
  sFile1AdditionalData :: ref
  sFile2AdditionalData :: ref

record MatchResponse_store =
  sMatches :: "MatchEntry_store list"
  sTotalFile1Rows :: nat
  sTotalFile2Rows :: nat
  sMatchedCount :: nat
  sUnmatchedCount :: nat

record MatchParams_store =
  spFile2Values :: "File2Entry_store list"
  spFile1Column :: string
  spFile2Column :: string
  spFile1Additional :: "string list"
  spFile2Additional :: "string list"
  spThreshold :: real
  spAlgorithm :: SimilarityAlgorithm

type_synonym match_state_store = "store \<times> MatchEntry_store list \<times> nat \<times> nat"

fun matchStep_store ::
  "natural_lib \<Rightarrow> MatchParams_store \<Rightarrow> match_state_store \<Rightarrow> nat \<Rightarrow> ref
     \<Rightarrow> match_state_store" where
  "matchStep_store lib p (h, ms, matched, unmatched) i file1Row =
     (let v1 = normalizeValue (readField h file1Row (spFile1Column p));
          bestMatch = findBestMatch_store lib v1 (spFile2Values p) (spThreshold p) (spAlgorithm p)
      in (case alloc h Map.empty of
            (h1, add1) \<Rightarrow>
              (let h2 = fst (copyFields_store add1 file1Row (h1, False) (spFile1Additional p))
               in (case alloc h2 Map.empty of
                     (h3, add2) \<Rightarrow>
                       (case bestMatch of
                          Some b \<Rightarrow>
                            (let h4 = fst (copyFields_store add2 (sMatchRow b) (h3, False)
                                             (spFile2Additional p))
                             in (h4,
                                 ms @ [\<lparr>sFile1RowIndex = i, sFile2RowIndex = Some (sMatchIndex b),
                                         sFile1Value = readField h4 file1Row (spFile1Column p),
                                         sFile2Value =
                                           orNull (readField h4 (sMatchRow b) (spFile2Column p)),
                                         sScore = sMatchScore b,
                                         sFile1AdditionalData = add1,
                                         sFile2AdditionalData = add2\<rparr>],
                                 matched + 1, unmatched))
                        | None \<Rightarrow>
                            (h3,
                             ms @ [\<lparr>sFile1RowIndex = i, sFile2RowIndex = None,
                                     sFile1Value = readField h3 file1Row (spFile1Column p),
                                     sFile2Value = JNull,
                                     sScore = 0,
                                     sFile1AdditionalData = add1,
                                     sFile2AdditionalData = add2\<rparr>],
                             matched, unmatched + 1))))))"

fun matchLoop_store ::
  "natural_lib \<Rightarrow> MatchParams_store \<Rightarrow> ref list \<Rightarrow> nat \<Rightarrow> match_state_store
     \<Rightarrow> match_state_store" where
  "matchLoop_store lib p [] i st = st"
| "matchLoop_store lib p (r # rest) i st =
     matchLoop_store lib p rest (Suc i) (matchStep_store lib p st i r)"

definition file2ValuesOf_store :: "store \<Rightarrow> ref list \<Rightarrow> string \<Rightarrow> File2Entry_store list" where
  "file2ValuesOf_store h refs col =
     map (\<lambda>(i, r). \<lparr>sEntryIndex = i, sEntryValue = normalizeValue (readField h r col),
                    sEntryRow = r\<rparr>)
       (enumerate 0 refs)"

definition mc_POST_store ::
  "natural_lib \<Rightarrow> store \<Rightarrow> ref MatchRequest \<Rightarrow> store \<times> MatchResponse_store response" where
  "mc_POST_store lib h body =
     (let add1 = (case file1AdditionalColumns body of None \<Rightarrow> [] | Some c \<Rightarrow> c);
          add2 = (case file2AdditionalColumns body of None \<Rightarrow> [] | Some c \<Rightarrow> c);
          threshold = (case similarityThreshold body of None \<Rightarrow> 0.8 | Some t \<Rightarrow> t);
          algorithm = (case similarityAlgorithm body of None \<Rightarrow> Dice | Some a \<Rightarrow> a)
      in (case file1Data body of
            None \<Rightarrow> (h, ErrorResponse ''Invalid or empty data for file 1'' 400)
          | Some f1 \<Rightarrow>
              (if f1 = [] then (h, ErrorResponse ''Invalid or empty data for file 1'' 400)
               else (case file2Data body of
                       None \<Rightarrow> (h, ErrorResponse ''Invalid or empty data for file 2'' 400)
                     | Some f2 \<Rightarrow>
                         (if f2 = [] then (h, ErrorResponse ''Invalid or empty data for file 2'' 400)
                          else (case (file1Column body, file2Column body) of
                                  (Some c1, Some c2) \<Rightarrow>
                                    (if c1 = [] \<or> c2 = []
                                     then (h, ErrorResponse ''Please select a column from each file'' 400)
                                     else (case matchLoop_store lib
                                                  \<lparr>spFile2Values = file2ValuesOf_store h f2 c2,
                                                   spFile1Column = c1, spFile2Column = c2,
                                                   spFile1Additional = add1, spFile2Additional = add2,
                                                   spThreshold = threshold, spAlgorithm = algorithm\<rparr>
                                                  f1 0 (h, [], 0, 0) of
                                             (h', ms, matched, unmatched) \<Rightarrow>
                                               (h', JsonResponse
                                                      \<lparr>sMatches = ms,
                                                       sTotalFile1Rows = length f1,
                                                       sTotalFile2Rows = length f2,
                                                       sMatchedCount = matched,
                                                       sUnmatchedCount = unmatched\<rparr>)))
                                | _ \<Rightarrow> (h, ErrorResponse ''Please select a column from each file'' 400)))))))"

subsection \<open>Reading requests and responses through the store\<close>

text \<open>
  The request a handler sees when each reference is replaced by the object it points to,
  and likewise for the values a handler builds. These relate the handlers over the store
  to the handlers over row values.
\<close>

definition processRequestAt :: "store \<Rightarrow> ref ProcessRequest \<Rightarrow> row ProcessRequest" where
  "processRequestAt h body =
     \<lparr>data = map_option (map ((!) h)) (data body), columns = columns body,
      comparisonMode = comparisonMode body,
      similarityThreshold = ProcessRequest.similarityThreshold body,
      similarityAlgorithm = ProcessRequest.similarityAlgorithm body,
      sliceStart = sliceStart body, sliceEnd = sliceEnd body\<rparr>"

definition processResultAt :: "store \<Rightarrow> ref ProcessResult \<Rightarrow> row ProcessResult" where
  "processResultAt h res =
     \<lparr>uniqueRows = map ((!) h) (uniqueRows res),
      duplicatesFound = duplicatesFound res,
      originalCount = originalCount res,
      uniqueCount = uniqueCount res,
      removedCount = removedCount res\<rparr>"

definition entryAt :: "store \<Rightarrow> File2Entry_store \<Rightarrow> File2Entry" where
  "entryAt h e =
     \<lparr>entryIndex = sEntryIndex e, entryValue = sEntryValue e, entryRow = h ! sEntryRow e\<rparr>"

definition bestAt :: "store \<Rightarrow> BestMatch_store \<Rightarrow> BestMatch" where
  "bestAt h b =
     \<lparr>matchIndex = sMatchIndex b, matchScore = sMatchScore b, matchRow = h ! sMatchRow b\<rparr>"

definition matchEntryAt :: "store \<Rightarrow> MatchEntry_store \<Rightarrow> MatchEntry" where
  "matchEntryAt h e =
     \<lparr>file1RowIndex = sFile1RowIndex e, file2RowIndex = sFile2RowIndex e,
      file1Value = sFile1Value e, file2Value = sFile2Value e, score = sScore e,
      file1AdditionalData = h ! sFile1AdditionalData e,
      file2AdditionalData = h ! sFile2AdditionalData e\<rparr>"

definition paramsAt :: "store \<Rightarrow> MatchParams_store \<Rightarrow> MatchParams" where
  "paramsAt h p =
     \<lparr>pFile2Values = map (entryAt h) (spFile2Values p),
      pFile1Column = spFile1Column p, pFile2Column = spFile2Column p,
      pFile1Additional = spFile1Additional p, pFile2Additional = spFile2Additional p,
      pThreshold = spThreshold p, pAlgorithm = spAlgorithm p\<rparr>"

definition matchRequestAt :: "store \<Rightarrow> ref MatchRequest \<Rightarrow> row MatchRequest" where
  "matchRequestAt h body =
     \<lparr>file1Data = map_option (map ((!) h)) (file1Data body),
      file2Data = map_option (map ((!) h)) (file2Data body),
      file1Column = file1Column body, file2Column = file2Column body,
      file1AdditionalColumns = file1AdditionalColumns body,
      file2AdditionalColumns = file2AdditionalColumns body,
      similarityThreshold = similarityThreshold body,
      similarityAlgorithm = similarityAlgorithm body\<rparr>"

definition matchResponseAt :: "store \<Rightarrow> MatchResponse_store \<Rightarrow> MatchResponse" where
  "matchResponseAt h res =
     \<lparr>matches = map (matchEntryAt h) (sMatches res),
      totalFile1Rows = sTotalFile1Rows res, totalFile2Rows = sTotalFile2Rows res,
      matchedCount = sMatchedCount res, unmatchedCount = sUnmatchedCount res\<rparr>"

section \<open>Reference definitions\<close>

text \<open>
  The sub-sequence of first occurrences: the elements whose key is not the key of an
  earlier element, in their original order.
\<close>

definition firstOccurrences :: "('a \<Rightarrow> string) \<Rightarrow> 'a list \<Rightarrow> 'a list" where
  "firstOccurrences sg xs =
     map (\<lambda>i. xs ! i) (filter (\<lambda>i. sg (xs ! i) \<notin> sg ` set (take i xs)) [0..<length xs])"

text \<open>The index of the first element with a given key.\<close>

definition firstIndexMap :: "('a \<Rightarrow> string) \<Rightarrow> 'a list \<Rightarrow> (string \<rightharpoonup> nat)" where
  "firstIndexMap sg xs = map_of (zip (map sg xs) [0..<length xs])"

text \<open>
  Modelled from the spec: \<^verbatim>\<open>natural.LevenshteinDistance\<close> belongs to a package outside the
  repository; the spec calls it the raw edit distance. This is the edit distance with
  unit costs for insertion, deletion and substitution.
\<close>

fun levenshteinDistance :: "string \<Rightarrow> string \<Rightarrow> nat" where
  "levenshteinDistance [] t = length t"
| "levenshteinDistance s [] = length s"
| "levenshteinDistance (x # s) (y # t) =
     min (min (levenshteinDistance s (y # t) + 1) (levenshteinDistance (x # s) t + 1))
         (levenshteinDistance s t + (if x = y then 0 else 1))"

text \<open>
  Modelled from the spec: \<^verbatim>\<open>natural.DiceCoefficient\<close> belongs to a package outside the
  repository; the spec defines it on the bags of adjacent-character bigrams as twice the
  number of shared bigrams (each counted up to its smaller multiplicity) over the total
  number of bigrams, and as 1 for identical non-empty strings. Where neither string has a
  bigram and the strings differ the quotient has denominator 0, which the spec leaves
  open; the division of HOL gives 0 there.
\<close>

definition bigrams :: "string \<Rightarrow> (char \<times> char) list" where
  "bigrams s = zip s (tl s)"

fun sharedCount :: "'a list \<Rightarrow> 'a list \<Rightarrow> nat" where
  "sharedCount [] ys = 0"
| "sharedCount (x # xs) ys =
     (if x \<in> set ys then Suc (sharedCount xs (remove1 x ys)) else sharedCount xs ys)"

definition diceCoefficient :: "string \<Rightarrow> string \<Rightarrow> real" where
  "diceCoefficient a b =
     (if a = b \<and> a \<noteq> [] then 1
      else 2 * real (sharedCount (bigrams a) (bigrams b))
             / real (length (bigrams a) + length (bigrams b)))"

text \<open>
  The package with the two functions above. The spec gives no definition of the
  Jaro-Winkler function, so it stays a parameter.
\<close>

definition natural_model :: "(string \<Rightarrow> string \<Rightarrow> real) \<Rightarrow> natural_lib" where
  "natural_model jw =
     \<lparr>DiceCoefficient = diceCoefficient, JaroWinklerDistance = jw,
      LevenshteinDistance = levenshteinDistance\<rparr>"

text \<open>Sample inputs for the closed instances below.\<close>

definition sampleRows :: "row list" where
  "sampleRows = [[''n'' \<mapsto> JStr ''A''], [''n'' \<mapsto> JStr '' a''], [''n'' \<mapsto> JStr ''b'']]"

definition sampleRequest :: "ComparisonMode \<Rightarrow> real \<Rightarrow> SimilarityAlgorithm \<Rightarrow> row ProcessRequest" where
  "sampleRequest mode threshold algorithm =
     \<lparr>data = Some sampleRows, columns = Some [''n''], comparisonMode = Some mode,
      similarityThreshold = Some threshold, similarityAlgorithm = Some algorithm,
      sliceStart = None, sliceEnd = None\<rparr>"

text \<open>
  The first candidate of maximal score among those that reach the threshold: position
  \<open>j\<close> qualifies, no position scores higher, and every earlier position scores strictly
  lower.
\<close>

definition firstBest :: "('e \<Rightarrow> real) \<Rightarrow> real \<Rightarrow> 'e list \<Rightarrow> nat \<Rightarrow> bool" where
  "firstBest sc t ex j \<longleftrightarrow>
     j < length ex \<and> t \<le> sc (ex ! j)
     \<and> (\<forall>k<length ex. sc (ex ! k) \<le> sc (ex ! j))
     \<and> (\<forall>k<j. sc (ex ! k) < sc (ex ! j))"

definition tieRows :: "row list" where
  "tieRows = [[''n'' \<mapsto> JStr ''ab''], [''n'' \<mapsto> JStr ''ba''], [''n'' \<mapsto> JStr ''aa'']]"

definition sampleMatchRequest :: "real \<Rightarrow> SimilarityAlgorithm \<Rightarrow> row MatchRequest" where
  "sampleMatchRequest t a =
     \<lparr>file1Data = Some [[''v'' \<mapsto> JStr ''Ab''], [''w'' \<mapsto> JStr ''x'']],
      file2Data = Some [[''v'' \<mapsto> JStr ''ab '']],
      file1Column = Some ''v'', file2Column = Some ''v'',
      file1AdditionalColumns = None, file2AdditionalColumns = None,
      similarityThreshold = Some t, similarityAlgorithm = Some a\<rparr>"

definition sampleSlicedRequest :: "ComparisonMode \<Rightarrow> int option \<Rightarrow> int option \<Rightarrow> row ProcessRequest" where
  "sampleSlicedRequest mode s e =
     \<lparr>data = Some sampleRows, columns = Some [''n''], comparisonMode = Some mode,
      similarityThreshold = None, similarityAlgorithm = None,
      sliceStart = s, sliceEnd = e\<rparr>"

text \<open>
  A package for the closed instances below. They use the Levenshtein and Dice functions
  only; the Jaro-Winkler component is never called in them and is a placeholder.
\<close>

definition sampleLib :: natural_lib where
  "sampleLib = natural_model (\<lambda>a b. 0)"

definition sampleEntries :: "File2Entry list" where
  "sampleEntries =
     [\<lparr>entryIndex = 0, entryValue = [], entryRow = Map.empty\<rparr>,
      \<lparr>entryIndex = 1, entryValue = ''ab'', entryRow = [''v'' \<mapsto> JStr ''Ab'']\<rparr>]"

definition emptyTargetRequest :: "row MatchRequest" where
  "emptyTargetRequest =
     \<lparr>file1Data = Some [[''v'' \<mapsto> JStr ''a'']],
      file2Data = Some [[''w'' \<mapsto> JStr ''x'']],
      file1Column = Some ''v'', file2Column = Some ''v'',
      file1AdditionalColumns = None, file2AdditionalColumns = None,
      similarityThreshold = Some 0, similarityAlgorithm = Some Levenshtein\<rparr>"

definition sampleParams :: MatchParams where
  "sampleParams =
     \<lparr>pFile2Values = sampleEntries, pFile1Column = ''v'', pFile2Column = ''v'',
      pFile1Additional = [], pFile2Additional = [],
      pThreshold = 4 / 5, pAlgorithm = Levenshtein\<rparr>"

definition isniRow :: row where
  "isniRow = [''isni'' \<mapsto> JStr ''x'']"

definition isniRequest :: "ref ProcessRequest" where
  "isniRequest =
     \<lparr>data = Some [0], columns = Some [''isni''], comparisonMode = Some Exact,
      similarityThreshold = None, similarityAlgorithm = None,
      sliceStart = None, sliceEnd = None\<rparr>"

definition sampleRefRequest :: "ref ProcessRequest" where
  "sampleRefRequest =
     \<lparr>data = Some [0, 1, 2], columns = Some [''n''], comparisonMode = Some Exact,
      similarityThreshold = None, similarityAlgorithm = None,
      sliceStart = None, sliceEnd = None\<rparr>"

definition diceRows :: "row list" where
  "diceRows = [[''n'' \<mapsto> JStr ''aba''], [''n'' \<mapsto> JStr ''bab'']]"

text \<open>The pair of row indices of a duplicate report.\<close>

definition indexPair :: "DuplicateInfo \<Rightarrow> nat \<times> nat" where
  "indexPair d = (originalIndex d, duplicateIndex d)"

section \<open>Evaluation of the string functions\<close>

lemmas eval_simps =
  createSignature_def signatureValue_def normalizeValue_def getField_def inheritedProperty_def
  joinItem_def
  trim_def isWhiteSpace_def toLowerCase_def lowerChar_def char_of_def bit_Suc_0_iff

lemma sampleRows_signatures:
  "map (\<lambda>r. createSignature r [''n'']) sampleRows = [''a'', ''a'', ''b'']"
  by (simp add: sampleRows_def eval_simps)

section \<open>Exact mode keeps the first occurrences\<close>

lemma firstOccurrences_snoc:
  "firstOccurrences sg (xs @ [x]) =
     firstOccurrences sg xs @ (if sg x \<in> sg ` set xs then [] else [x])"
proof -
  let ?P = "\<lambda>ys i. sg (ys ! i) \<notin> sg ` set (take i ys)"
  have a: "filter (?P (xs @ [x])) [0..<length xs] = filter (?P xs) [0..<length xs]"
    by (rule filter_cong) (auto simp: nth_append)
  have b: "map (\<lambda>i. (xs @ [x]) ! i) (filter (?P xs) [0..<length xs])
         = map (\<lambda>i. xs ! i) (filter (?P xs) [0..<length xs])"
    by (rule map_cong) (auto simp: nth_append)
  have "firstOccurrences sg (xs @ [x]) =
          map (\<lambda>i. (xs @ [x]) ! i) (filter (?P (xs @ [x])) [0..<length xs])
          @ map (\<lambda>i. (xs @ [x]) ! i) (filter (?P (xs @ [x])) [length xs])"
    unfolding firstOccurrences_def by simp
  also have "map (\<lambda>i. (xs @ [x]) ! i) (filter (?P (xs @ [x])) [0..<length xs])
          = firstOccurrences sg xs"
    unfolding firstOccurrences_def by (simp only: a b)
  also have "map (\<lambda>i. (xs @ [x]) ! i) (filter (?P (xs @ [x])) [length xs])
          = (if sg x \<in> sg ` set xs then [] else [x])"
    by simp
  finally show ?thesis .
qed

lemma length_firstOccurrences: "length (firstOccurrences sg xs) \<le> length xs"
proof -
  have "length (filter (\<lambda>i. sg (xs ! i) \<notin> sg ` set (take i xs)) [0..<length xs])
          \<le> length [0..<length xs]"
    by (rule length_filter_le)
  then show ?thesis
    unfolding firstOccurrences_def by simp
qed

lemma set_firstOccurrences: "set (firstOccurrences sg xs) \<subseteq> set xs"
proof
  fix x assume "x \<in> set (firstOccurrences sg xs)"
  then obtain i where "i < length xs" "x = xs ! i"
    unfolding firstOccurrences_def by auto
  then show "x \<in> set xs" by simp
qed

lemma firstIndexMap_None: "firstIndexMap sg xs s = None \<longleftrightarrow> s \<notin> sg ` set xs"
proof -
  have "fst ` set (zip (map sg xs) [0..<length xs]) = set (map sg xs)"
    by (metis length_map length_upt diff_zero map_fst_zip set_map)
  then show ?thesis
    unfolding firstIndexMap_def by (simp add: map_of_eq_None_iff)
qed

lemma firstIndexMap_append1:
  "firstIndexMap sg (xs @ [x]) = [sg x \<mapsto> length xs] ++ firstIndexMap sg xs"
  unfolding firstIndexMap_def by simp

lemma firstIndexMap_snoc:
  "firstIndexMap sg (xs @ [x]) =
     (case firstIndexMap sg xs (sg x) of
        None \<Rightarrow> (firstIndexMap sg xs)(sg x \<mapsto> length xs)
      | Some j \<Rightarrow> firstIndexMap sg xs)"
proof (rule ext)
  fix s
  show "firstIndexMap sg (xs @ [x]) s =
     (case firstIndexMap sg xs (sg x) of
        None \<Rightarrow> (firstIndexMap sg xs)(sg x \<mapsto> length xs)
      | Some j \<Rightarrow> firstIndexMap sg xs) s"
    by (cases "firstIndexMap sg xs (sg x)"; cases "firstIndexMap sg xs s")
       (auto simp: firstIndexMap_append1 map_add_def)
qed

lemma exactLoop_snoc:
  "exactLoop cols (xs @ [x]) i st = exactStep cols (exactLoop cols xs i st) (i + length xs) x"
  by (induction xs arbitrary: i st) simp_all

text \<open>
  The loop invariant: after a prefix \<open>xs\<close>, \<open>seen\<close> maps every signature met to the index
  of its first row and \<open>uniqueRows\<close> holds the first occurrences of \<open>xs\<close>.
\<close>

lemma exactLoop_invariant:
  "exactLoop cols xs 0 (Map.empty, [], []) = (seen, uniq, dups) \<Longrightarrow>
     seen = firstIndexMap (\<lambda>r. createSignature r cols) xs \<and>
     uniq = firstOccurrences (\<lambda>r. createSignature r cols) xs"
proof (induction xs arbitrary: seen uniq dups rule: rev_induct)
  case Nil
  then show ?case by (simp add: firstIndexMap_def firstOccurrences_def)
next
  case (snoc x xs)
  obtain seen0 uniq0 dups0 where
    st: "exactLoop cols xs 0 (Map.empty, [], []) = (seen0, uniq0, dups0)"
    by (cases "exactLoop cols xs 0 (Map.empty, [], [])") auto
  from snoc.IH [OF st] have
    s0: "seen0 = firstIndexMap (\<lambda>r. createSignature r cols) xs" and
    u0: "uniq0 = firstOccurrences (\<lambda>r. createSignature r cols) xs"
    by simp_all
  from snoc.prems st have
    step: "exactStep cols (seen0, uniq0, dups0) (length xs) x = (seen, uniq, dups)"
    by (simp add: exactLoop_snoc)
  show ?case
  proof (cases "seen0 (createSignature x cols)")
    case None
    with step s0 u0 show ?thesis
      using firstIndexMap_None [of "\<lambda>r. createSignature r cols" xs "createSignature x cols"]
      by (auto simp: firstIndexMap_snoc firstOccurrences_snoc Let_def)
  next
    case (Some j)
    with step s0 u0 show ?thesis
      using firstIndexMap_None [of "\<lambda>r. createSignature r cols" xs "createSignature x cols"]
      by (auto simp: firstIndexMap_snoc firstOccurrences_snoc Let_def)
  qed
qed

lemma removeExactDuplicates_uniqueRows:
  "uniqueRows (removeExactDuplicates rows cols)
     = firstOccurrences (\<lambda>r. createSignature r cols) rows"
  unfolding removeExactDuplicates_def
  using exactLoop_invariant [of cols rows]
  by (cases "exactLoop cols rows 0 (Map.empty, [], [])") auto

lemma length_slice: "length (slice xs a b) \<le> length xs"
  unfolding slice_def by (simp add: Let_def)

lemma set_slice: "set (slice xs a b) \<subseteq> set xs"
  unfolding slice_def Let_def by (meson set_take_subset set_drop_subset subset_trans)

lemma slice_all: "slice xs 0 (int (length xs)) = xs"
  by (simp add: slice_def relativeIndex_def)

text \<open>
  C1. For a non-empty record sequence and a non-empty column selection in exact mode, the
  reducer returns exactly the first occurrences of each signature, in input order. The
  handler answers with these rows (of the requested slice, which is the whole input when
  no slice is given), each carrying its annotation, and with
  \<open>removedCount = originalCount - uniqueCount \<ge> 0\<close>.
\<close>

theorem exact_first_occurrences:
  assumes "rows \<noteq> []" and "cols \<noteq> []"
    and "data body = Some rows" and "columns body = Some cols"
    and "comparisonMode body = Some Exact"
  shows "uniqueRows (removeExactDuplicates rows cols)
           = firstOccurrences (\<lambda>r. createSignature r cols) rows
       \<and> (\<exists>res. pe_POST lib body = JsonResponse res
            \<and> uniqueRows res
                = map (withIsni cols)
                    (firstOccurrences (\<lambda>r. createSignature r cols)
                       (slice rows (case sliceStart body of None \<Rightarrow> 0 | Some s \<Rightarrow> s)
                          (case sliceEnd body of None \<Rightarrow> int (length rows) | Some e \<Rightarrow> e)))
            \<and> originalCount res = int (length rows)
            \<and> uniqueCount res = int (length (uniqueRows res))
            \<and> removedCount res = originalCount res - uniqueCount res
            \<and> 0 \<le> removedCount res)"
proof -
  let ?sl = "slice rows (case sliceStart body of None \<Rightarrow> 0 | Some s \<Rightarrow> s)
               (case sliceEnd body of None \<Rightarrow> int (length rows) | Some e \<Rightarrow> e)"
  have len: "length (firstOccurrences (\<lambda>r. createSignature r cols) ?sl) \<le> length rows"
    using length_firstOccurrences [of "\<lambda>r. createSignature r cols" ?sl]
          length_slice [of rows] by (meson le_trans)
  show ?thesis
    using assms len
    by (simp add: removeExactDuplicates_uniqueRows pe_POST_def removeDuplicateRows_def Let_def)
qed

theorem exact_first_occurrences_witness:
  "uniqueRows (removeExactDuplicates sampleRows [''n''])
     = [[''n'' \<mapsto> JStr ''A''], [''n'' \<mapsto> JStr ''b'']]
   \<and> (\<forall>lib t a. \<exists>res. pe_POST lib (sampleRequest Exact t a) = JsonResponse res
          \<and> uniqueRows res
               = map (withIsni [''n'']) [[''n'' \<mapsto> JStr ''A''], [''n'' \<mapsto> JStr ''b'']]
          \<and> originalCount res = 3 \<and> uniqueCount res = 2 \<and> removedCount res = 1)"
proof -
  have fo: "firstOccurrences (\<lambda>r. createSignature r [''n'']) sampleRows
              = [[''n'' \<mapsto> JStr ''A''], [''n'' \<mapsto> JStr ''b'']]"
    by (simp add: firstOccurrences_def sampleRows_def upt_rec eval_simps)
  have len: "length sampleRows = 3"
    by (simp add: sampleRows_def)
  have ne: "sampleRows \<noteq> []"
    by (simp add: sampleRows_def)
  have sl: "slice sampleRows 0 3 = sampleRows"
    using slice_all [of sampleRows] by (simp add: len)
  show ?thesis
  proof (intro conjI allI)
    show "uniqueRows (removeExactDuplicates sampleRows [''n''])
            = [[''n'' \<mapsto> JStr ''A''], [''n'' \<mapsto> JStr ''b'']]"
      using exact_first_occurrences [of sampleRows "[''n'']" "sampleRequest Exact 1 Dice"] ne fo
      by (simp add: sampleRequest_def)
  next
    fix lib t a
    from exact_first_occurrences [of sampleRows "[''n'']" "sampleRequest Exact t a" lib] ne
    obtain res where
      "pe_POST lib (sampleRequest Exact t a) = JsonResponse res"
      "uniqueRows res
         = map (withIsni [''n''])
             (firstOccurrences (\<lambda>r. createSignature r [''n''])
                (slice sampleRows 0 (int (length sampleRows))))"
      "originalCount res = int (length sampleRows)"
      "uniqueCount res = int (length (uniqueRows res))"
      "removedCount res = originalCount res - uniqueCount res"
      by (auto simp: sampleRequest_def)
    then show "\<exists>res. pe_POST lib (sampleRequest Exact t a) = JsonResponse res
          \<and> uniqueRows res
               = map (withIsni [''n'']) [[''n'' \<mapsto> JStr ''A''], [''n'' \<mapsto> JStr ''b'']]
          \<and> originalCount res = 3 \<and> uniqueCount res = 2 \<and> removedCount res = 1"
      by (simp add: sl fo len)
  qed
qed

section \<open>One step of the fuzzy pass\<close>

lemma findSimilarMatchLoop_snoc:
  "findSimilarMatchLoop lib sg (ex @ [e]) t alg best =
     (let sc = pe_calculateSimilarity lib sg (signature e) alg;
          cur = findSimilarMatchLoop lib sg ex t alg best
      in if sc \<ge> t \<and> (case cur of None \<Rightarrow> True | Some b \<Rightarrow> sc > bestScore b)
         then Some \<lparr>bestSignature = signature e, bestIndex = index e, bestScore = sc\<rparr>
         else cur)"
  by (induction ex arbitrary: best) (simp_all add: Let_def)

lemma findSimilarMatchLoop_invariant:
  fixes lib sg t alg
  defines "sc \<equiv> \<lambda>e. pe_calculateSimilarity lib sg (signature e) alg"
  shows "(findSimilarMatchLoop lib sg ex t alg None = None \<and> (\<forall>e\<in>set ex. sc e < t))
       \<or> (\<exists>j. firstBest sc t ex j \<and>
              findSimilarMatchLoop lib sg ex t alg None
                = Some \<lparr>bestSignature = signature (ex ! j), bestIndex = index (ex ! j),
                         bestScore = sc (ex ! j)\<rparr>)"
proof (induction ex rule: rev_induct)
  case Nil
  then show ?case by simp
next
  case (snoc e ex)
  let ?cur = "findSimilarMatchLoop lib sg ex t alg None"
  from snoc.IH show ?case
  proof (elim disjE conjE exE)
    assume none: "?cur = None" and low: "\<forall>e\<in>set ex. sc e < t"
    show ?thesis
    proof (cases "t \<le> sc e")
      case True
      have "firstBest sc t (ex @ [e]) (length ex)"
        using True low unfolding firstBest_def
        by (auto simp: nth_append less_Suc_eq dest!: nth_mem [of _ ex] intro: less_imp_le less_le_trans)
      moreover have "findSimilarMatchLoop lib sg (ex @ [e]) t alg None
                = Some \<lparr>bestSignature = signature e, bestIndex = index e, bestScore = sc e\<rparr>"
        using True none by (simp add: findSimilarMatchLoop_snoc sc_def Let_def)
      ultimately show ?thesis
        by (intro disjI2 exI [of _ "length ex"]) simp
    next
      case False
      then show ?thesis
        using none low by (simp add: findSimilarMatchLoop_snoc sc_def Let_def)
    qed
  next
    fix j
    assume fb: "firstBest sc t ex j"
      and cur: "?cur = Some \<lparr>bestSignature = signature (ex ! j), bestIndex = index (ex ! j),
                         bestScore = sc (ex ! j)\<rparr>"
    show ?thesis
    proof (cases "t \<le> sc e \<and> sc (ex ! j) < sc e")
      case True
      have "firstBest sc t (ex @ [e]) (length ex)"
        using True fb unfolding firstBest_def
        by (auto simp: nth_append less_Suc_eq intro: le_less_trans less_imp_le)
      moreover have "findSimilarMatchLoop lib sg (ex @ [e]) t alg None
                = Some \<lparr>bestSignature = signature e, bestIndex = index e, bestScore = sc e\<rparr>"
        using True cur by (simp add: findSimilarMatchLoop_snoc sc_def Let_def)
      ultimately show ?thesis
        by (intro disjI2 exI [of _ "length ex"]) simp
    next
      case False
      have "firstBest sc t (ex @ [e]) j"
        using False fb unfolding firstBest_def
        by (auto simp: nth_append less_Suc_eq)
      moreover have "findSimilarMatchLoop lib sg (ex @ [e]) t alg None = ?cur"
        using False cur by (auto simp add: findSimilarMatchLoop_snoc sc_def Let_def)
      ultimately show ?thesis
        using cur fb by (intro disjI2 exI [of _ j]) (simp add: nth_append firstBest_def)
    qed
  qed
qed


lemma fuzzyLoop_snoc:
  "fuzzyLoop lib cols t alg (xs @ [x]) i st
     = fuzzyStep lib cols t alg (fuzzyLoop lib cols t alg xs i st) (i + length xs) x"
  by (induction xs arbitrary: i st) simp_all

lemma findSimilarMatch_cases:
  fixes lib sg t alg
  defines "sc \<equiv> \<lambda>e. pe_calculateSimilarity lib sg (signature e) alg"
  shows "(findSimilarMatch lib sg ex t alg = None \<and> (\<forall>e\<in>set ex. sc e < t))
       \<or> (\<exists>j. firstBest sc t ex j \<and>
              findSimilarMatch lib sg ex t alg
                = Some \<lparr>matchedSignature = signature (ex ! j), matchedIndex = index (ex ! j),
                         matchedScore = sc (ex ! j)\<rparr>)"
proof (cases "ex = []")
  case True
  then show ?thesis by (simp add: findSimilarMatch_def)
next
  case False
  with findSimilarMatchLoop_invariant [of lib sg ex t alg] show ?thesis
    unfolding sc_def findSimilarMatch_def by auto
qed

lemma removeFuzzyDuplicates_of_loop:
  "fuzzyLoop lib cols t alg xs 0 ([], [], []) = (uniq, sigs, dups) \<Longrightarrow>
     removeFuzzyDuplicates lib xs cols t alg = \<lparr>uniqueRows = uniq, duplicatesFound = dups\<rparr>"
  by (simp add: removeFuzzyDuplicates_def)

lemma firstBest_qualifies: "firstBest sc t ex j \<Longrightarrow> \<exists>e\<in>set ex. t \<le> sc e"
  unfolding firstBest_def using nth_mem by blast

text \<open>
  C2. In the left-to-right pass of fuzzy mode, let \<open>(uniq, sigs, dups)\<close> be the accumulators
  after the rows \<open>xs\<close>, so that the reducer returns \<open>uniq\<close> and \<open>dups\<close> for \<open>xs\<close>. For the next
  row \<open>r\<close>: if no accepted signature scores at least the threshold against it, \<open>r\<close> is
  appended to the accepted rows and signatures; otherwise the accepted rows are unchanged
  and \<open>r\<close> is reported as a duplicate of the first accepted candidate of maximal score,
  with that score.
\<close>

theorem fuzzy_pass_step:
  assumes st: "fuzzyLoop lib cols t alg xs 0 ([], [], []) = (uniq, sigs, dups)"
  shows "removeFuzzyDuplicates lib xs cols t alg = \<lparr>uniqueRows = uniq, duplicatesFound = dups\<rparr>
       \<and> ((\<forall>e\<in>set sigs. pe_calculateSimilarity lib (createSignature r cols) (signature e) alg < t)
            \<longrightarrow> fuzzyLoop lib cols t alg (xs @ [r]) 0 ([], [], [])
                  = (uniq @ [r],
                     sigs @ [\<lparr>signature = createSignature r cols, index = length xs\<rparr>],
                     dups)
                \<and> removeFuzzyDuplicates lib (xs @ [r]) cols t alg
                  = \<lparr>uniqueRows = uniq @ [r], duplicatesFound = dups\<rparr>)
       \<and> ((\<exists>e\<in>set sigs. t \<le> pe_calculateSimilarity lib (createSignature r cols) (signature e) alg)
            \<longrightarrow> (\<exists>j. firstBest
                        (\<lambda>e. pe_calculateSimilarity lib (createSignature r cols) (signature e) alg)
                        t sigs j
                    \<and> fuzzyLoop lib cols t alg (xs @ [r]) 0 ([], [], [])
                        = (uniq, sigs,
                           dups @ [\<lparr>original = signature (sigs ! j),
                                    duplicate = createSignature r cols,
                                    originalIndex = index (sigs ! j),
                                    duplicateIndex = length xs,
                                    DuplicateInfo.score =
                                      Some (pe_calculateSimilarity lib (createSignature r cols)
                                              (signature (sigs ! j)) alg)\<rparr>])
                    \<and> removeFuzzyDuplicates lib (xs @ [r]) cols t alg
                        = \<lparr>uniqueRows = uniq,
                           duplicatesFound =
                             dups @ [\<lparr>original = signature (sigs ! j),
                                      duplicate = createSignature r cols,
                                      originalIndex = index (sigs ! j),
                                      duplicateIndex = length xs,
                                      DuplicateInfo.score =
                                        Some (pe_calculateSimilarity lib (createSignature r cols)
                                                (signature (sigs ! j)) alg)\<rparr>]\<rparr>))"
proof -
  let ?sg = "createSignature r cols"
  let ?sc = "\<lambda>e. pe_calculateSimilarity lib ?sg (signature e) alg"
  have step: "fuzzyLoop lib cols t alg (xs @ [r]) 0 ([], [], [])
                = fuzzyStep lib cols t alg (uniq, sigs, dups) (length xs) r"
    using st by (simp add: fuzzyLoop_snoc)
  have out: "removeFuzzyDuplicates lib xs cols t alg
               = \<lparr>uniqueRows = uniq, duplicatesFound = dups\<rparr>"
    using st by (rule removeFuzzyDuplicates_of_loop)
  from findSimilarMatch_cases [of lib ?sg sigs t alg]
  show ?thesis
  proof (elim disjE conjE exE)
    assume none: "findSimilarMatch lib ?sg sigs t alg = None"
      and low: "\<forall>e\<in>set sigs. ?sc e < t"
    from low have "\<not> (\<exists>e\<in>set sigs. t \<le> ?sc e)"
      by (auto simp: not_le)
    moreover have "fuzzyLoop lib cols t alg (xs @ [r]) 0 ([], [], [])
                  = (uniq @ [r], sigs @ [\<lparr>signature = ?sg, index = length xs\<rparr>], dups)"
      using none step by (simp add: Let_def)
    ultimately show ?thesis
      using out removeFuzzyDuplicates_of_loop [of lib cols t alg "xs @ [r]"] by simp
  next
    fix j
    assume fb: "firstBest ?sc t sigs j"
      and some: "findSimilarMatch lib ?sg sigs t alg
                = Some \<lparr>matchedSignature = signature (sigs ! j), matchedIndex = index (sigs ! j),
                         matchedScore = ?sc (sigs ! j)\<rparr>"
    from firstBest_qualifies [OF fb] have "\<not> (\<forall>e\<in>set sigs. ?sc e < t)"
      by (auto simp: not_less)
    moreover have "fuzzyLoop lib cols t alg (xs @ [r]) 0 ([], [], [])
                        = (uniq, sigs,
                           dups @ [\<lparr>original = signature (sigs ! j),
                                    duplicate = ?sg,
                                    originalIndex = index (sigs ! j),
                                    duplicateIndex = length xs,
                                    DuplicateInfo.score = Some (?sc (sigs ! j))\<rparr>])"
      using some step by (simp add: Let_def)
    ultimately show ?thesis
      using out fb removeFuzzyDuplicates_of_loop [of lib cols t alg "xs @ [r]"] by blast
  qed
qed


lemma tieRows_signatures:
  "createSignature [''n'' \<mapsto> JStr ''ab''] [''n''] = ''ab''"
  "createSignature [''n'' \<mapsto> JStr ''ba''] [''n''] = ''ba''"
  "createSignature [''n'' \<mapsto> JStr ''aa''] [''n''] = ''aa''"
  by (simp_all add: eval_simps)

lemma tie_scores:
  "pe_calculateSimilarity (natural_model jw) ''ba'' ''ab'' Levenshtein = 0"
  "pe_calculateSimilarity (natural_model jw) ''aa'' ''ab'' Levenshtein = 1 / 2"
  "pe_calculateSimilarity (natural_model jw) ''aa'' ''ba'' Levenshtein = 1 / 2"
  by (simp_all add: pe_calculateSimilarity_def natural_model_def)

theorem fuzzy_pass_step_witness:
  "\<forall>jw. fuzzyLoop (natural_model jw) [''n''] (1 / 2) Levenshtein (take 2 tieRows) 0 ([], [], [])
           = (take 2 tieRows,
              [\<lparr>signature = ''ab'', index = 0\<rparr>, \<lparr>signature = ''ba'', index = 1\<rparr>], [])
      \<and> fuzzyLoop (natural_model jw) [''n''] (1 / 2) Levenshtein tieRows 0 ([], [], [])
           = (take 2 tieRows,
              [\<lparr>signature = ''ab'', index = 0\<rparr>, \<lparr>signature = ''ba'', index = 1\<rparr>],
              [\<lparr>original = ''ab'', duplicate = ''aa'', originalIndex = 0, duplicateIndex = 2,
                DuplicateInfo.score = Some (1 / 2)\<rparr>])"
proof (intro allI)
  fix jw
  let ?lib = "natural_model jw"
  let ?a = "[''n'' \<mapsto> JStr ''ab'']" and ?b = "[''n'' \<mapsto> JStr ''ba'']"
  let ?c = "[''n'' \<mapsto> JStr ''aa'']"
  let ?sigs = "[\<lparr>signature = ''ab'', index = 0\<rparr>, \<lparr>signature = ''ba'', index = 1\<rparr>]"
  have st1: "fuzzyLoop ?lib [''n''] (1 / 2) Levenshtein [?a] 0 ([], [], [])
               = ([?a], [\<lparr>signature = ''ab'', index = 0\<rparr>], [])"
    by (simp add: findSimilarMatch_def tieRows_signatures)
  have st2: "fuzzyLoop ?lib [''n''] (1 / 2) Levenshtein [?a, ?b] 0 ([], [], [])
               = ([?a, ?b], ?sigs, [])"
    using fuzzy_pass_step [OF st1, of ?b]
    by (simp add: tieRows_signatures tie_scores)
  from fuzzy_pass_step [OF st2, of ?c]
  obtain j where fb: "firstBest
        (\<lambda>e. pe_calculateSimilarity ?lib ''aa'' (signature e) Levenshtein) (1 / 2) ?sigs j"
    and res: "fuzzyLoop ?lib [''n''] (1 / 2) Levenshtein ([?a, ?b] @ [?c]) 0 ([], [], [])
                = ([?a, ?b], ?sigs,
                   [] @ [\<lparr>original = signature (?sigs ! j), duplicate = ''aa'',
                     originalIndex = index (?sigs ! j), duplicateIndex = length [?a, ?b],
                     DuplicateInfo.score =
                       Some (pe_calculateSimilarity ?lib ''aa'' (signature (?sigs ! j)) Levenshtein)\<rparr>])"
    by (auto simp: tieRows_signatures tie_scores)
  have "j = 0"
  proof (rule ccontr)
    assume "j \<noteq> 0"
    with fb have "j = 1" and "\<forall>k<j. pe_calculateSimilarity ?lib ''aa'' (signature (?sigs ! k)) Levenshtein
                     < pe_calculateSimilarity ?lib ''aa'' (signature (?sigs ! j)) Levenshtein"
      unfolding firstBest_def by auto
    then have "pe_calculateSimilarity ?lib ''aa'' (signature (?sigs ! 0)) Levenshtein
                 < pe_calculateSimilarity ?lib ''aa'' (signature (?sigs ! 1)) Levenshtein"
      by blast
    then show False by (simp add: tie_scores)
  qed
  with res st2 show "fuzzyLoop ?lib [''n''] (1 / 2) Levenshtein (take 2 tieRows) 0 ([], [], [])
           = (take 2 tieRows, ?sigs, [])
      \<and> fuzzyLoop ?lib [''n''] (1 / 2) Levenshtein tieRows 0 ([], [], [])
           = (take 2 tieRows, ?sigs,
              [\<lparr>original = ''ab'', duplicate = ''aa'', originalIndex = 0, duplicateIndex = 2,
                DuplicateInfo.score = Some (1 / 2)\<rparr>])"
    by (simp add: tieRows_def tie_scores)
qed

section \<open>The shape of the cross-match response\<close>

lemma matchStep_None:
  assumes "fst (findBestMatch lib (normalizeValue (getField r (pFile1Column p)))
                    (pFile2Values p) (pThreshold p) (pAlgorithm p)) = None"
  shows "matchStep lib p (ms, matched, unmatched) i r
         = (ms @ [\<lparr>file1RowIndex = i, file2RowIndex = None,
                    file1Value = getField r (pFile1Column p),
                    file2Value = JNull,
                    score = 0,
                    file1AdditionalData = additionalData r (pFile1Additional p),
                    file2AdditionalData = Map.empty\<rparr>],
            matched, unmatched + 1)"
  by (simp only: matchStep.simps Let_def assms option.case)

lemma matchStep_Some:
  assumes "fst (findBestMatch lib (normalizeValue (getField r (pFile1Column p)))
                    (pFile2Values p) (pThreshold p) (pAlgorithm p)) = Some b"
  shows "matchStep lib p (ms, matched, unmatched) i r
         = (ms @ [\<lparr>file1RowIndex = i, file2RowIndex = Some (matchIndex b),
                    file1Value = getField r (pFile1Column p),
                    file2Value = orNull (getField (matchRow b) (pFile2Column p)),
                    score = matchScore b,
                    file1AdditionalData = additionalData r (pFile1Additional p),
                    file2AdditionalData = additionalData (matchRow b) (pFile2Additional p)\<rparr>],
            matched + 1, unmatched)"
  by (simp only: matchStep.simps Let_def assms option.case)

lemma matchStep_shape:
  "\<exists>e. matchStep lib p (ms, matched, unmatched) i r
         = (ms @ [e], matched + (if file2RowIndex e = None then 0 else 1),
            unmatched + (if file2RowIndex e = None then 1 else 0))
       \<and> file1RowIndex e = i
       \<and> (file2RowIndex e = None \<longrightarrow> score e = 0)"
proof (cases "fst (findBestMatch lib (normalizeValue (getField r (pFile1Column p)))
                    (pFile2Values p) (pThreshold p) (pAlgorithm p))")
  case None
  show ?thesis
    unfolding matchStep_None [OF None]
    by (rule exI [of _ "\<lparr>file1RowIndex = i, file2RowIndex = None,
                    file1Value = getField r (pFile1Column p),
                    file2Value = JNull,
                    score = 0,
                    file1AdditionalData = additionalData r (pFile1Additional p),
                    file2AdditionalData = Map.empty\<rparr>"]) simp
next
  case (Some b)
  show ?thesis
    unfolding matchStep_Some [OF Some]
    by (rule exI [of _ "\<lparr>file1RowIndex = i, file2RowIndex = Some (matchIndex b),
                    file1Value = getField r (pFile1Column p),
                    file2Value = orNull (getField (matchRow b) (pFile2Column p)),
                    score = matchScore b,
                    file1AdditionalData = additionalData r (pFile1Additional p),
                    file2AdditionalData = additionalData (matchRow b) (pFile2Additional p)\<rparr>"]) simp
qed



lemma matchLoop_invariant:
  "matchLoop lib p xs i (ms, matched, unmatched) = (ms', matched', unmatched') \<Longrightarrow>
     map file1RowIndex ms' = map file1RowIndex ms @ [i..<i + length xs]
     \<and> matched' + unmatched' = matched + unmatched + length xs
     \<and> (\<forall>e\<in>set ms'. e \<in> set ms \<or> (file2RowIndex e = None \<longrightarrow> score e = 0))"
proof (induction xs arbitrary: i ms matched unmatched)
  case Nil
  then show ?case by simp
next
  case (Cons r xs)
  from matchStep_shape [of lib p ms matched unmatched i r] obtain e where
    all: "matchStep lib p (ms, matched, unmatched) i r
         = (ms @ [e], matched + (if file2RowIndex e = None then 0 else 1),
            unmatched + (if file2RowIndex e = None then 1 else 0))
       \<and> file1RowIndex e = i
       \<and> (file2RowIndex e = None \<longrightarrow> score e = 0)" ..
  from all have
    step: "matchStep lib p (ms, matched, unmatched) i r
         = (ms @ [e], matched + (if file2RowIndex e = None then 0 else 1),
            unmatched + (if file2RowIndex e = None then 1 else 0))"
    by (rule conjunct1)
  from all have idx: "file1RowIndex e = i"
    by (rule conjunct1 [OF conjunct2])
  from all have sc: "file2RowIndex e = None \<longrightarrow> score e = 0"
    by (rule conjunct2 [OF conjunct2])
  let ?m = "matched + (if file2RowIndex e = None then 0 else 1)"
  let ?u = "unmatched + (if file2RowIndex e = None then 1 else 0)"
  from Cons.prems have
    "matchLoop lib p xs (Suc i) (matchStep lib p (ms, matched, unmatched) i r)
       = (ms', matched', unmatched')"
    by (simp only: matchLoop.simps)
  then have run: "matchLoop lib p xs (Suc i) (ms @ [e], ?m, ?u) = (ms', matched', unmatched')"
    by (simp only: step)
  from Cons.IH [OF run] have
    a: "map file1RowIndex ms' = map file1RowIndex (ms @ [e]) @ [Suc i..<Suc i + length xs]"
    and b: "matched' + unmatched' = ?m + ?u + length xs"
    and c: "\<forall>x\<in>set ms'. x \<in> set (ms @ [e]) \<or> (file2RowIndex x = None \<longrightarrow> score x = 0)"
    by blast+
  have "i < i + length (r # xs)"
    by simp
  from upt_conv_Cons [OF this]
  have up: "[i..<i + length (r # xs)] = i # [Suc i..<Suc i + length xs]"
    by simp
  have "map file1RowIndex ms' = map file1RowIndex ms @ [i..<i + length (r # xs)]"
    unfolding up a using idx by simp
  moreover have "matched' + unmatched' = matched + unmatched + length (r # xs)"
    using b by simp
  moreover have "\<forall>x\<in>set ms'. x \<in> set ms \<or> (file2RowIndex x = None \<longrightarrow> score x = 0)"
    using c sc by auto
  ultimately show ?case by blast
qed


text \<open>
  C3. A cross-match call with non-empty source and target sequences (and a column chosen
  on each side) answers with exactly one entry per source record, in order; the two
  counters add up to the number of source records; and every entry without a target index
  has score 0.
\<close>

theorem match_response_shape:
  assumes "file1Data body = Some f1" and "f1 \<noteq> []"
    and "file2Data body = Some f2" and "f2 \<noteq> []"
    and "file1Column body = Some c1" and "c1 \<noteq> []"
    and "file2Column body = Some c2" and "c2 \<noteq> []"
  shows "\<exists>res. mc_POST lib body = JsonResponse res
           \<and> totalFile1Rows res = length f1
           \<and> length (matches res) = totalFile1Rows res
           \<and> map file1RowIndex (matches res) = [0..<length f1]
           \<and> matchedCount res + unmatchedCount res = totalFile1Rows res
           \<and> (\<forall>m\<in>set (matches res). file2RowIndex m = None \<longrightarrow> score m = 0)"
proof -
  let ?p = "\<lparr>pFile2Values = file2ValuesOf f2 c2, pFile1Column = c1, pFile2Column = c2,
             pFile1Additional = (case file1AdditionalColumns body of None \<Rightarrow> [] | Some c \<Rightarrow> c),
             pFile2Additional = (case file2AdditionalColumns body of None \<Rightarrow> [] | Some c \<Rightarrow> c),
             pThreshold = (case similarityThreshold body of None \<Rightarrow> 0.8 | Some t \<Rightarrow> t),
             pAlgorithm = (case similarityAlgorithm body of None \<Rightarrow> Dice | Some a \<Rightarrow> a)\<rparr>"
  obtain ms matched unmatched where
    run: "matchLoop lib ?p f1 0 ([], 0, 0) = (ms, matched, unmatched)"
    by (cases "matchLoop lib ?p f1 0 ([], 0, 0)") auto
  from matchLoop_invariant [OF run] have
    idx: "map file1RowIndex ms = [0..<length f1]"
    and cnt: "matched + unmatched = length f1"
    and sc: "\<forall>e\<in>set ms. file2RowIndex e = None \<longrightarrow> score e = 0"
    by simp_all
  from idx have len: "length ms = length f1"
    by (metis length_map length_upt diff_zero)
  have "mc_POST lib body = JsonResponse
          \<lparr>matches = ms, totalFile1Rows = length f1, totalFile2Rows = length f2,
           matchedCount = matched, unmatchedCount = unmatched\<rparr>"
    using assms run by (simp add: mc_POST_def Let_def)
  with idx cnt sc len show ?thesis by simp
qed


theorem match_response_shape_witness:
  "\<forall>lib t a. \<exists>res. mc_POST lib (sampleMatchRequest t a) = JsonResponse res
           \<and> totalFile1Rows res = 2
           \<and> length (matches res) = 2
           \<and> map file1RowIndex (matches res) = [0, 1]
           \<and> matchedCount res + unmatchedCount res = 2
           \<and> (\<forall>m\<in>set (matches res). file2RowIndex m = None \<longrightarrow> score m = 0)"
proof (intro allI)
  fix lib t a
  have up: "[0..<2] = [0, Suc 0]"
    by (simp add: upt_rec)
  from match_response_shape
         [of "sampleMatchRequest t a" "[[''v'' \<mapsto> JStr ''Ab''], [''w'' \<mapsto> JStr ''x'']]"
             "[[''v'' \<mapsto> JStr ''ab '']]" "''v''" "''v''" lib]
  show "\<exists>res. mc_POST lib (sampleMatchRequest t a) = JsonResponse res
           \<and> totalFile1Rows res = 2
           \<and> length (matches res) = 2
           \<and> map file1RowIndex (matches res) = [0, 1]
           \<and> matchedCount res + unmatchedCount res = 2
           \<and> (\<forall>m\<in>set (matches res). file2RowIndex m = None \<longrightarrow> score m = 0)"
    by (auto simp: sampleMatchRequest_def up)
qed

section \<open>Fuzzy mode at threshold 1\<close>

text \<open>
  With a scorer that reaches 1 on identical strings only, fuzzy mode at threshold 1 accepts
  the same rows as exact mode and reports the same pairs of indices. The Levenshtein
  branch is such a scorer (with the edit distance for \<^verbatim>\<open>natural.LevenshteinDistance\<close>).
\<close>

lemma levenshteinDistance_zero: "levenshteinDistance a b = 0 \<longleftrightarrow> a = b"
  by (induction a b rule: levenshteinDistance.induct) auto

lemma levenshteinDistance_sym: "levenshteinDistance a b = levenshteinDistance b a"
proof (induction a b rule: levenshteinDistance.induct)
  case (1 t)
  then show ?case by (cases t) simp_all
next
  case (2 v va)
  then show ?case by simp
next
  case (3 x s y t)
  then show ?case by (simp add: min.commute min.left_commute eq_commute [of x y])
qed

lemma levenshteinDistance_le: "levenshteinDistance a b \<le> max (length a) (length b)"
  by (induction a b rule: levenshteinDistance.induct) auto

lemma levenshtein_discriminating:
  assumes "LevenshteinDistance lib = levenshteinDistance"
  shows "(1 \<le> pe_calculateSimilarity lib a b Levenshtein) = (a = b)"
proof (cases "max (length a) (length b) = 0")
  case True
  then show ?thesis
    by (simp add: pe_calculateSimilarity_def)
next
  case False
  then have "0 < max (length a) (length b)"
    by (simp only: neq0_conv)
  then have pos: "0 < real (max (length a) (length b))"
    by (simp only: of_nat_0_less_iff)
  have "(1 \<le> pe_calculateSimilarity lib a b Levenshtein)
          = (real (levenshteinDistance a b) / real (max (length a) (length b)) \<le> 0)"
    using False by (simp add: pe_calculateSimilarity_def assms Let_def)
  also have "\<dots> = (levenshteinDistance a b = 0)"
    using pos by (auto simp: divide_le_0_iff)
  finally show ?thesis
    by (simp add: levenshteinDistance_zero)
qed

lemma indexPair_record:
  "indexPair \<lparr>original = a, duplicate = b, originalIndex = i, duplicateIndex = j,
              DuplicateInfo.score = s\<rparr> = (i, j)"
  by (simp add: indexPair_def)

lemma fuzzy_exact_simulation:
  assumes disc: "\<And>a b. (1 \<le> pe_calculateSimilarity lib a b alg) = (a = b)"
  shows "exactLoop cols xs 0 (Map.empty, [], []) = (seen, uniq, dups) \<Longrightarrow>
         fuzzyLoop lib cols 1 alg xs 0 ([], [], []) = (uniq', sigs, dups') \<Longrightarrow>
         uniq' = uniq \<and> map indexPair dups' = map indexPair dups
         \<and> (\<forall>s i. (seen s = Some i) = (\<lparr>signature = s, index = i\<rparr> \<in> set sigs))"
proof (induction xs arbitrary: seen uniq dups uniq' sigs dups' rule: rev_induct)
  case Nil
  then show ?case by auto
next
  case (snoc r xs)
  let ?sg = "createSignature r cols"
  let ?sc = "\<lambda>e. pe_calculateSimilarity lib ?sg (signature e) alg"
  obtain seen0 uniq0 dups0 where
    e0: "exactLoop cols xs 0 (Map.empty, [], []) = (seen0, uniq0, dups0)"
    by (cases "exactLoop cols xs 0 (Map.empty, [], [])") auto
  obtain uniq0' sigs0 dups0' where
    f0: "fuzzyLoop lib cols 1 alg xs 0 ([], [], []) = (uniq0', sigs0, dups0')"
    by (cases "fuzzyLoop lib cols 1 alg xs 0 ([], [], [])") auto
  from snoc.IH [OF e0 f0] have
    u: "uniq0' = uniq0" and d: "map indexPair dups0' = map indexPair dups0"
    and inv: "\<And>s i. (seen0 s = Some i) = (\<lparr>signature = s, index = i\<rparr> \<in> set sigs0)"
    by blast+
  from snoc.prems(1) e0 have
    es: "exactStep cols (seen0, uniq0, dups0) (length xs) r = (seen, uniq, dups)"
    by (simp add: exactLoop_snoc)
  from snoc.prems(2) f0 have
    fs: "fuzzyStep lib cols 1 alg (uniq0', sigs0, dups0') (length xs) r = (uniq', sigs, dups')"
    by (simp add: fuzzyLoop_snoc)
  from findSimilarMatch_cases [of lib ?sg sigs0 1 alg]
  show ?case
  proof (elim disjE conjE exE)
    assume none: "findSimilarMatch lib ?sg sigs0 1 alg = None"
      and low: "\<forall>e\<in>set sigs0. ?sc e < 1"
    have unseen: "seen0 ?sg = None"
    proof (cases "seen0 ?sg")
      case None
      then show ?thesis .
    next
      case (Some j)
      then have "\<lparr>signature = ?sg, index = j\<rparr> \<in> set sigs0"
        by (simp add: inv)
      with low have "pe_calculateSimilarity lib ?sg ?sg alg < 1"
        by fastforce
      moreover have "1 \<le> pe_calculateSimilarity lib ?sg ?sg alg"
        by (simp add: disc)
      ultimately show ?thesis by simp
    qed
    have fresh: "\<lparr>signature = ?sg, index = i\<rparr> \<notin> set sigs0" for i
      using unseen inv [of ?sg i] by simp
    from es unseen have
      "seen = seen0(?sg \<mapsto> length xs)" "uniq = uniq0 @ [r]" "dups = dups0"
      by (simp_all add: Let_def)
    moreover from fs none have
      "uniq' = uniq0' @ [r]" "sigs = sigs0 @ [\<lparr>signature = ?sg, index = length xs\<rparr>]"
      "dups' = dups0'"
      by (simp_all add: Let_def)
    ultimately show ?thesis
      using u d inv fresh by auto
  next
    fix j
    assume fb: "firstBest ?sc 1 sigs0 j"
      and some: "findSimilarMatch lib ?sg sigs0 1 alg
                = Some \<lparr>matchedSignature = signature (sigs0 ! j), matchedIndex = index (sigs0 ! j),
                         matchedScore = ?sc (sigs0 ! j)\<rparr>"
    from fb have jl: "j < length sigs0" and q: "1 \<le> ?sc (sigs0 ! j)"
      unfolding firstBest_def by simp_all
    from q have same: "signature (sigs0 ! j) = ?sg"
      by (simp add: disc)
    have "sigs0 ! j = \<lparr>signature = ?sg, index = index (sigs0 ! j)\<rparr>"
      using same by (cases "sigs0 ! j") simp
    with jl have "\<lparr>signature = ?sg, index = index (sigs0 ! j)\<rparr> \<in> set sigs0"
      by (metis nth_mem)
    then have seen: "seen0 ?sg = Some (index (sigs0 ! j))"
      by (simp add: inv)
    have "exactStep cols (seen0, uniq0, dups0) (length xs) r
            = (seen0, uniq0,
               dups0 @ [\<lparr>original = ?sg, duplicate = ?sg, originalIndex = index (sigs0 ! j),
                         duplicateIndex = length xs, DuplicateInfo.score = None\<rparr>])"
      by (simp add: seen Let_def)
    with es have
      ex: "(seen, uniq, dups)
            = (seen0, uniq0,
               dups0 @ [\<lparr>original = ?sg, duplicate = ?sg, originalIndex = index (sigs0 ! j),
                         duplicateIndex = length xs, DuplicateInfo.score = None\<rparr>])"
      by (simp only:)
    have "fuzzyStep lib cols 1 alg (uniq0', sigs0, dups0') (length xs) r
            = (uniq0', sigs0,
               dups0' @ [\<lparr>original = signature (sigs0 ! j), duplicate = ?sg,
                           originalIndex = index (sigs0 ! j), duplicateIndex = length xs,
                           DuplicateInfo.score = Some (?sc (sigs0 ! j))\<rparr>])"
      by (simp add: some Let_def)
    with fs have
      fz: "(uniq', sigs, dups')
            = (uniq0', sigs0,
               dups0' @ [\<lparr>original = signature (sigs0 ! j), duplicate = ?sg,
                           originalIndex = index (sigs0 ! j), duplicateIndex = length xs,
                           DuplicateInfo.score = Some (?sc (sigs0 ! j))\<rparr>])"
      by (simp only:)
    from ex fz show ?thesis
      using u d inv by (simp add: indexPair_record)
  qed
qed

lemma fuzzy_threshold_one_discriminating:
  assumes "\<And>a b. (1 \<le> pe_calculateSimilarity lib a b alg) = (a = b)"
  shows "uniqueRows (removeFuzzyDuplicates lib rows cols 1 alg)
           = uniqueRows (removeExactDuplicates rows cols)
       \<and> map indexPair (duplicatesFound (removeFuzzyDuplicates lib rows cols 1 alg))
           = map indexPair (duplicatesFound (removeExactDuplicates rows cols))"
proof -
  obtain seen uniq dups where
    e: "exactLoop cols rows 0 (Map.empty, [], []) = (seen, uniq, dups)"
    by (cases "exactLoop cols rows 0 (Map.empty, [], [])") auto
  obtain uniq' sigs dups' where
    f: "fuzzyLoop lib cols 1 alg rows 0 ([], [], []) = (uniq', sigs, dups')"
    by (cases "fuzzyLoop lib cols 1 alg rows 0 ([], [], [])") auto
  from fuzzy_exact_simulation [OF assms e f] e f show ?thesis
    by (simp add: removeFuzzyDuplicates_def removeExactDuplicates_def)
qed

lemma fuzzy_threshold_one_levenshtein:
  "uniqueRows (removeFuzzyDuplicates (natural_model jw) rows cols 1 Levenshtein)
           = uniqueRows (removeExactDuplicates rows cols)
   \<and> map indexPair (duplicatesFound (removeFuzzyDuplicates (natural_model jw) rows cols 1 Levenshtein))
           = map indexPair (duplicatesFound (removeExactDuplicates rows cols))"
  by (rule fuzzy_threshold_one_discriminating, rule levenshtein_discriminating)
     (simp add: natural_model_def)

lemma diceRows_signatures:
  "createSignature [''n'' \<mapsto> JStr ''aba''] [''n''] = ''aba''"
  "createSignature [''n'' \<mapsto> JStr ''bab''] [''n''] = ''bab''"
  by (simp_all add: eval_simps)

lemma dice_aba_bab: "diceCoefficient ''bab'' ''aba'' = 1"
  by (simp add: diceCoefficient_def bigrams_def)

text \<open>
  C4 at a failing input. The rows \<open>aba\<close> and \<open>bab\<close> have the same bigrams, so their Dice
  coefficient is 1: fuzzy mode at threshold 1 with the Dice algorithm reports the second
  row as a duplicate of the first, while exact mode keeps both rows and reports no
  duplicate.
\<close>

theorem fuzzy_threshold_one_dice_differs:
  "removeDuplicateRows sampleLib diceRows [''n''] Fuzzy 1 Dice
     = \<lparr>uniqueRows = [[''n'' \<mapsto> JStr ''aba'']],
        duplicatesFound = [\<lparr>original = ''aba'', duplicate = ''bab'', originalIndex = 0,
                            duplicateIndex = 1, DuplicateInfo.score = Some 1\<rparr>]\<rparr>
   \<and> removeDuplicateRows sampleLib diceRows [''n''] Exact 1 Dice
     = \<lparr>uniqueRows = [[''n'' \<mapsto> JStr ''aba''], [''n'' \<mapsto> JStr ''bab'']],
        duplicatesFound = []\<rparr>"
proof -
  have sc: "pe_calculateSimilarity sampleLib ''bab'' ''aba'' Dice = 1"
    by (simp add: pe_calculateSimilarity_def sampleLib_def natural_model_def dice_aba_bab)
  have fz: "removeFuzzyDuplicates sampleLib diceRows [''n''] 1 Dice
     = \<lparr>uniqueRows = [[''n'' \<mapsto> JStr ''aba'']],
        duplicatesFound = [\<lparr>original = ''aba'', duplicate = ''bab'', originalIndex = 0,
                            duplicateIndex = 1, DuplicateInfo.score = Some 1\<rparr>]\<rparr>"
    by (simp add: removeFuzzyDuplicates_def diceRows_def diceRows_signatures
          findSimilarMatch_def sc Let_def)
  have ex: "removeExactDuplicates diceRows [''n'']
     = \<lparr>uniqueRows = [[''n'' \<mapsto> JStr ''aba''], [''n'' \<mapsto> JStr ''bab'']],
        duplicatesFound = []\<rparr>"
    by (simp add: removeExactDuplicates_def diceRows_def diceRows_signatures Let_def)
  show ?thesis
    by (simp add: removeDuplicateRows_def fz ex)
qed

section \<open>Symmetry and bounds of the Levenshtein branch\<close>

text \<open>
  With the edit distance for \<^verbatim>\<open>natural.LevenshteinDistance\<close>, the Levenshtein branch of both
  scorers is symmetric and stays within 0 and 1.
\<close>

lemma levenshtein_score_sym_bounded:
  assumes "LevenshteinDistance lib = levenshteinDistance"
  shows "pe_calculateSimilarity lib a b Levenshtein = pe_calculateSimilarity lib b a Levenshtein"
    and "0 \<le> pe_calculateSimilarity lib a b Levenshtein"
    and "pe_calculateSimilarity lib a b Levenshtein \<le> 1"
    and "mc_calculateSimilarity lib a b Levenshtein = mc_calculateSimilarity lib b a Levenshtein"
    and "0 \<le> mc_calculateSimilarity lib a b Levenshtein"
    and "mc_calculateSimilarity lib a b Levenshtein \<le> 1"
proof -
  have le: "real (levenshteinDistance a b) \<le> real (max (length a) (length b))"
    using levenshteinDistance_le [of a b] by (simp only: of_nat_le_iff)
  have q: "real (levenshteinDistance a b) / real (max (length a) (length b)) \<le> 1"
    if "max (length a) (length b) \<noteq> 0"
  proof -
    from that have "0 < max (length a) (length b)"
      by (simp only: neq0_conv)
    then have "0 < real (max (length a) (length b))"
      by (simp only: of_nat_0_less_iff)
    with le show ?thesis
      by (simp only: divide_le_eq_1_pos)
  qed
  show "pe_calculateSimilarity lib a b Levenshtein = pe_calculateSimilarity lib b a Levenshtein"
    by (simp add: pe_calculateSimilarity_def assms Let_def max.commute
          levenshteinDistance_sym [of a b])
  show "0 \<le> pe_calculateSimilarity lib a b Levenshtein"
    using q by (simp add: pe_calculateSimilarity_def assms Let_def)
  show "pe_calculateSimilarity lib a b Levenshtein \<le> 1"
    by (simp add: pe_calculateSimilarity_def assms Let_def)
  show "mc_calculateSimilarity lib a b Levenshtein = mc_calculateSimilarity lib b a Levenshtein"
    by (auto simp: mc_calculateSimilarity_def assms Let_def max.commute
          levenshteinDistance_sym [of a b])
  show "0 \<le> mc_calculateSimilarity lib a b Levenshtein"
    using q by (simp add: mc_calculateSimilarity_def assms Let_def)
  show "mc_calculateSimilarity lib a b Levenshtein \<le> 1"
    by (simp add: mc_calculateSimilarity_def assms Let_def)
qed

text \<open>
  Both scorers hand the Dice and Jaro-Winkler results of the package through unchanged
  (the cross-match scorer after its guard on empty strings), so they are symmetric and
  within 0 and 1 for every package whose two functions are.
\<close>

lemma calculateSimilarity_inherits:
  assumes dice: "\<And>a b. DiceCoefficient lib a b = DiceCoefficient lib b a
                        \<and> 0 \<le> DiceCoefficient lib a b \<and> DiceCoefficient lib a b \<le> 1"
    and jw: "\<And>a b. JaroWinklerDistance lib a b = JaroWinklerDistance lib b a
                        \<and> 0 \<le> JaroWinklerDistance lib a b \<and> JaroWinklerDistance lib a b \<le> 1"
    and lev: "LevenshteinDistance lib = levenshteinDistance"
  shows "pe_calculateSimilarity lib a b alg = pe_calculateSimilarity lib b a alg
       \<and> 0 \<le> pe_calculateSimilarity lib a b alg \<and> pe_calculateSimilarity lib a b alg \<le> 1
       \<and> mc_calculateSimilarity lib a b alg = mc_calculateSimilarity lib b a alg
       \<and> 0 \<le> mc_calculateSimilarity lib a b alg \<and> mc_calculateSimilarity lib a b alg \<le> 1"
proof (cases alg)
  case Dice
  then show ?thesis
    using dice [of a b] by (auto simp: pe_calculateSimilarity_def mc_calculateSimilarity_def)
next
  case JaroWinkler
  then show ?thesis
    using jw [of a b] by (auto simp: pe_calculateSimilarity_def mc_calculateSimilarity_def)
next
  case Levenshtein
  then show ?thesis
    using levenshtein_score_sym_bounded [OF lev, of a b] by simp
qed

section \<open>Empty values in the cross-file matcher\<close>

lemma mc_calculateSimilarity_empty:
  "mc_calculateSimilarity lib [] s alg = 0" "mc_calculateSimilarity lib s [] alg = 0"
  by (simp_all add: mc_calculateSimilarity_def)

lemma findBestMatchLoop_invariant:
  "findBestMatchLoop lib s vals t alg (best, scored) = (best', scored') \<Longrightarrow>
     scored' = scored @ vals
     \<and> (\<forall>b. best' = Some b \<longrightarrow>
           best = Some b
           \<or> (\<exists>e\<in>set vals. b = \<lparr>matchIndex = entryIndex e,
                                    matchScore = mc_calculateSimilarity lib s (entryValue e) alg,
                                    matchRow = entryRow e\<rparr>
                             \<and> t \<le> mc_calculateSimilarity lib s (entryValue e) alg))"
proof (induction vals arbitrary: best scored)
  case Nil
  then show ?case by simp
next
  case (Cons e vals)
  let ?sc = "mc_calculateSimilarity lib s (entryValue e) alg"
  let ?nb = "if t \<le> ?sc \<and> (case best of None \<Rightarrow> True | Some b \<Rightarrow> matchScore b < ?sc)
             then Some \<lparr>matchIndex = entryIndex e, matchScore = ?sc, matchRow = entryRow e\<rparr>
             else best"
  from Cons.prems have
    run: "findBestMatchLoop lib s vals t alg (?nb, scored @ [e]) = (best', scored')"
    by (simp add: Let_def)
  from Cons.IH [OF run] have
    a: "scored' = (scored @ [e]) @ vals"
    and b: "\<forall>b. best' = Some b \<longrightarrow>
           ?nb = Some b
           \<or> (\<exists>e\<in>set vals. b = \<lparr>matchIndex = entryIndex e,
                                    matchScore = mc_calculateSimilarity lib s (entryValue e) alg,
                                    matchRow = entryRow e\<rparr>
                             \<and> t \<le> mc_calculateSimilarity lib s (entryValue e) alg)"
    by blast+
  have c: "?nb = Some b \<Longrightarrow> best = Some b
           \<or> (b = \<lparr>matchIndex = entryIndex e, matchScore = ?sc, matchRow = entryRow e\<rparr>
               \<and> t \<le> ?sc)" for b
    by (cases "t \<le> ?sc \<and> (case best of None \<Rightarrow> True | Some b \<Rightarrow> matchScore b < ?sc)")
       simp_all
  show ?case
  proof (intro conjI allI impI)
    show "scored' = scored @ e # vals"
      using a by simp
  next
    fix b assume "best' = Some b"
    with b have "?nb = Some b
           \<or> (\<exists>e\<in>set vals. b = \<lparr>matchIndex = entryIndex e,
                                    matchScore = mc_calculateSimilarity lib s (entryValue e) alg,
                                    matchRow = entryRow e\<rparr>
                             \<and> t \<le> mc_calculateSimilarity lib s (entryValue e) alg)"
      by blast
    then show "best = Some b
           \<or> (\<exists>e\<in>set (e # vals). b = \<lparr>matchIndex = entryIndex e,
                                    matchScore = mc_calculateSimilarity lib s (entryValue e) alg,
                                    matchRow = entryRow e\<rparr>
                             \<and> t \<le> mc_calculateSimilarity lib s (entryValue e) alg)"
      using c [of b] by auto
  qed
qed

lemma findBestMatch_Some:
  assumes "fst (findBestMatch lib s vals t alg) = Some b"
  shows "s \<noteq> [] \<and> (\<exists>e\<in>set vals. b = \<lparr>matchIndex = entryIndex e,
                                    matchScore = mc_calculateSimilarity lib s (entryValue e) alg,
                                    matchRow = entryRow e\<rparr>
                             \<and> t \<le> mc_calculateSimilarity lib s (entryValue e) alg)"
proof -
  from assms have ne: "s \<noteq> []"
    by (auto simp: findBestMatch_def split: if_splits)
  obtain best' scored' where
    run: "findBestMatchLoop lib s vals t alg (None, []) = (best', scored')"
    by (cases "findBestMatchLoop lib s vals t alg (None, [])") auto
  with assms ne have "best' = Some b"
    by (simp add: findBestMatch_def)
  with findBestMatchLoop_invariant [OF run] ne show ?thesis
    by simp
qed


lemma matchStep_empty_source:
  assumes "normalizeValue (getField r (pFile1Column p)) = []"
  shows "matchStep lib p (ms, matched, unmatched) i r
         = (ms @ [\<lparr>file1RowIndex = i, file2RowIndex = None,
                    file1Value = getField r (pFile1Column p),
                    file2Value = JNull,
                    score = 0,
                    file1AdditionalData = additionalData r (pFile1Additional p),
                    file2AdditionalData = Map.empty\<rparr>],
            matched, unmatched + 1)"
  by (rule matchStep_None) (simp add: assms findBestMatch_def)

text \<open>
  C5, as amended. In the cross-file matcher a source value that normalises to the empty
  string is answered without scoring any candidate (the list of scored candidates is
  empty), for every threshold, and its entry has no target index and score 0. A target
  value that normalises to the empty string scores 0 against everything, so for every
  threshold above 0 the best match, when there is one, is a candidate with a non-empty
  value, found for a non-empty source value.
\<close>

theorem empty_value_never_matches:
  "findBestMatch lib [] vals t alg = (None, [])
   \<and> (normalizeValue (getField r (pFile1Column p)) = [] \<longrightarrow>
        matchStep lib p (ms, matched, unmatched) i r
         = (ms @ [\<lparr>file1RowIndex = i, file2RowIndex = None,
                    file1Value = getField r (pFile1Column p),
                    file2Value = JNull,
                    score = 0,
                    file1AdditionalData = additionalData r (pFile1Additional p),
                    file2AdditionalData = Map.empty\<rparr>],
            matched, unmatched + 1))
   \<and> (0 < t \<and> fst (findBestMatch lib s vals t alg) = Some b \<longrightarrow>
        s \<noteq> [] \<and> (\<exists>e\<in>set vals. entryIndex e = matchIndex b \<and> entryRow e = matchRow b
                          \<and> entryValue e \<noteq> [] \<and> t \<le> matchScore b))"
proof (intro conjI impI)
  show "findBestMatch lib [] vals t alg = (None, [])"
    by (simp add: findBestMatch_def)
next
  assume "normalizeValue (getField r (pFile1Column p)) = []"
  then show "matchStep lib p (ms, matched, unmatched) i r
         = (ms @ [\<lparr>file1RowIndex = i, file2RowIndex = None,
                    file1Value = getField r (pFile1Column p),
                    file2Value = JNull,
                    score = 0,
                    file1AdditionalData = additionalData r (pFile1Additional p),
                    file2AdditionalData = Map.empty\<rparr>],
            matched, unmatched + 1)"
    by (rule matchStep_empty_source)
next
  assume h: "0 < t \<and> fst (findBestMatch lib s vals t alg) = Some b"
  then show "s \<noteq> []"
    using findBestMatch_Some [of lib s vals t alg b] by blast
next
  assume h: "0 < t \<and> fst (findBestMatch lib s vals t alg) = Some b"
  with findBestMatch_Some [of lib s vals t alg b] obtain e where
    e: "e \<in> set vals"
    and b: "b = \<lparr>matchIndex = entryIndex e,
                 matchScore = mc_calculateSimilarity lib s (entryValue e) alg,
                 matchRow = entryRow e\<rparr>"
    and t: "t \<le> mc_calculateSimilarity lib s (entryValue e) alg"
    by blast
  from t h have "entryValue e \<noteq> []"
    using mc_calculateSimilarity_empty(2) [of lib s alg] by auto
  with e b t show "\<exists>e\<in>set vals. entryIndex e = matchIndex b \<and> entryRow e = matchRow b
                          \<and> entryValue e \<noteq> [] \<and> t \<le> matchScore b"
    by (intro bexI [of _ e]) simp_all
qed

text \<open>
  C5 as stated fails at threshold 0: a source value \<open>a\<close> is matched, with score 0, to a
  target row whose column is absent (its normalised value is empty).
\<close>

theorem empty_value_never_matches_counterexample:
  "mc_POST sampleLib emptyTargetRequest
     = JsonResponse
         \<lparr>matches = [\<lparr>file1RowIndex = 0, file2RowIndex = Some 0,
                      file1Value = JStr ''a'', file2Value = JNull, score = 0,
                      file1AdditionalData = Map.empty, file2AdditionalData = Map.empty\<rparr>],
          totalFile1Rows = 1, totalFile2Rows = 1, matchedCount = 1, unmatchedCount = 0\<rparr>"
proof -
  let ?r1 = "[''v'' \<mapsto> JStr ''a'']" and ?r2 = "[''w'' \<mapsto> JStr ''x'']"
  let ?vals = "[\<lparr>entryIndex = 0, entryValue = [], entryRow = ?r2\<rparr>]"
  let ?p = "\<lparr>pFile2Values = ?vals, pFile1Column = ''v'', pFile2Column = ''v'',
             pFile1Additional = [], pFile2Additional = [],
             pThreshold = 0, pAlgorithm = Levenshtein\<rparr>"
  have n1: "normalizeValue (getField ?r1 ''v'') = ''a''"
    by (simp add: eval_simps)
  have n2: "normalizeValue (getField ?r2 ''v'') = []"
    by (simp add: eval_simps)
  have f2: "file2ValuesOf [?r2] ''v'' = ?vals"
    by (simp add: file2ValuesOf_def enumerate_eq_zip n2)
  have fb: "fst (findBestMatch sampleLib (normalizeValue (getField ?r1 (pFile1Column ?p)))
                   (pFile2Values ?p) (pThreshold ?p) (pAlgorithm ?p))
            = Some \<lparr>matchIndex = 0, matchScore = 0, matchRow = ?r2\<rparr>"
    by (simp add: n1 findBestMatch_def mc_calculateSimilarity_def)
  have g: "getField ?r2 ''v'' = JUndefined" "getField ?r1 ''v'' = JStr ''a''"
    by (simp_all add: getField_def inheritedProperty_def)
  have step: "matchStep sampleLib ?p ([], 0, 0) 0 ?r1
         = ([\<lparr>file1RowIndex = 0, file2RowIndex = Some 0,
              file1Value = JStr ''a'', file2Value = JNull, score = 0,
              file1AdditionalData = Map.empty, file2AdditionalData = Map.empty\<rparr>], 1, 0)"
    unfolding matchStep_Some [OF fb]
    by (simp add: g orNull_def additionalData_def)
  have loop: "matchLoop sampleLib ?p [?r1] 0 ([], 0, 0)
         = ([\<lparr>file1RowIndex = 0, file2RowIndex = Some 0,
              file1Value = JStr ''a'', file2Value = JNull, score = 0,
              file1AdditionalData = Map.empty, file2AdditionalData = Map.empty\<rparr>], 1, 0)"
    by (simp only: matchLoop.simps step)
  show ?thesis
    by (simp add: mc_POST_def emptyTargetRequest_def f2 loop del: matchLoop.simps matchStep.simps)
qed


theorem empty_value_never_matches_witness:
  "findBestMatch sampleLib [] sampleEntries (4 / 5) Levenshtein = (None, [])
   \<and> normalizeValue (getField Map.empty (pFile1Column sampleParams)) = []
   \<and> matchStep sampleLib sampleParams ([], 0, 0) 0 Map.empty
         = ([\<lparr>file1RowIndex = 0, file2RowIndex = None,
              file1Value = JUndefined, file2Value = JNull, score = 0,
              file1AdditionalData = Map.empty, file2AdditionalData = Map.empty\<rparr>], 0, 1)
   \<and> (0::real) < 4 / 5
   \<and> fst (findBestMatch sampleLib ''ab'' sampleEntries (4 / 5) Levenshtein)
         = Some \<lparr>matchIndex = 1, matchScore = 1, matchRow = [''v'' \<mapsto> JStr ''Ab'']\<rparr>
   \<and> (\<exists>e\<in>set sampleEntries. entryIndex e = 1 \<and> entryRow e = [''v'' \<mapsto> JStr ''Ab'']
                                \<and> entryValue e \<noteq> [])"
proof -
  let ?b = "\<lparr>matchIndex = 1, matchScore = 1, matchRow = [''v'' \<mapsto> JStr ''Ab'']\<rparr>"
  have n: "normalizeValue (getField Map.empty (pFile1Column sampleParams)) = []"
    by (simp add: normalizeValue_def getField_def inheritedProperty_def sampleParams_def)
  have g: "getField Map.empty (pFile1Column sampleParams) = JUndefined"
    by (simp add: getField_def inheritedProperty_def sampleParams_def)
  have a: "additionalData Map.empty (pFile1Additional sampleParams) = Map.empty"
    by (simp add: additionalData_def sampleParams_def)
  have fb: "fst (findBestMatch sampleLib ''ab'' sampleEntries (4 / 5) Levenshtein) = Some ?b"
    by (simp add: findBestMatch_def sampleEntries_def mc_calculateSimilarity_def sampleLib_def
          natural_model_def)
  note inst = empty_value_never_matches
               [of sampleLib sampleEntries "4 / 5" Levenshtein Map.empty sampleParams
                   "[]" 0 0 0 "''ab''" ?b]
  from inst have 1: "findBestMatch sampleLib [] sampleEntries (4 / 5) Levenshtein = (None, [])"
    by (rule conjunct1)
  from inst n have 2: "matchStep sampleLib sampleParams ([], 0, 0) 0 Map.empty
         = ([\<lparr>file1RowIndex = 0, file2RowIndex = None,
              file1Value = JUndefined, file2Value = JNull, score = 0,
              file1AdditionalData = Map.empty, file2AdditionalData = Map.empty\<rparr>], 0, 1)"
    by (simp add: g a)
  from inst fb have 3: "\<exists>e\<in>set sampleEntries. entryIndex e = 1
                          \<and> entryRow e = [''v'' \<mapsto> JStr ''Ab''] \<and> entryValue e \<noteq> []"
    by simp
  from 1 n 2 fb 3 show ?thesis
    by simp
qed

section \<open>Edge cases of the Levenshtein score\<close>

lemma levenshteinDistance_single:
  "x \<noteq> y \<Longrightarrow> levenshteinDistance [x] [y] = 1"
  by simp




section \<open>Idempotence of the normalisers\<close>

lemma of_char_lowerChar:
  "(of_char (lowerChar c) :: nat) =
     (let n = of_char c
      in if (65 \<le> n \<and> n \<le> 90) \<or> (192 \<le> n \<and> n \<le> 222 \<and> n \<noteq> 215) then n + 32 else n)"
  by (simp add: lowerChar_def Let_def)

lemma lowerChar_idem: "lowerChar (lowerChar c) = lowerChar c"
proof -
  have "(of_char (lowerChar (lowerChar c)) :: nat) = of_char (lowerChar c)"
    by (simp add: of_char_lowerChar Let_def)
  then show ?thesis
    by (metis char_of_char)
qed

lemma isWhiteSpace_lowerChar: "isWhiteSpace (lowerChar c) = isWhiteSpace c"
  by (simp add: isWhiteSpace_def of_char_lowerChar Let_def)

lemma dropWhile_toLowerCase:
  "dropWhile isWhiteSpace (toLowerCase s) = toLowerCase (dropWhile isWhiteSpace s)"
  by (induction s) (simp_all add: toLowerCase_def isWhiteSpace_lowerChar)

lemma trim_toLowerCase: "trim (toLowerCase s) = toLowerCase (trim s)"
proof -
  have r: "rev (toLowerCase t) = toLowerCase (rev t)" for t
    by (simp add: toLowerCase_def rev_map)
  show ?thesis
    unfolding trim_def by (simp only: dropWhile_toLowerCase r)
qed

lemma toLowerCase_idem: "toLowerCase (toLowerCase s) = toLowerCase s"
  by (simp add: toLowerCase_def lowerChar_idem)

lemma dropWhile_idem: "dropWhile P (dropWhile P xs) = dropWhile P xs"
  by (induction xs) simp_all

lemma dropWhile_hd: "dropWhile P xs \<noteq> [] \<Longrightarrow> \<not> P (hd (dropWhile P xs))"
  by (metis hd_dropWhile)

lemma trim_idem: "trim (trim s) = trim s"
proof -
  let ?t = "dropWhile isWhiteSpace s"
  let ?u = "dropWhile isWhiteSpace (rev ?t)"
  have a: "dropWhile isWhiteSpace (rev ?u) = rev ?u"
  proof (cases "?u = []")
    case True
    show ?thesis by (simp only: True rev.simps(1) dropWhile.simps(1))
  next
    case False
    have "rev ?t = takeWhile isWhiteSpace (rev ?t) @ ?u"
      by simp
    then have "?t = rev ?u @ rev (takeWhile isWhiteSpace (rev ?t))"
      by (metis rev_append rev_rev_ident)
    with False have "hd (rev ?u) = hd ?t" and "?t \<noteq> []"
      by (metis hd_append2 rev_is_Nil_conv, metis append_is_Nil_conv rev_is_Nil_conv)
    then have "\<not> isWhiteSpace (hd (rev ?u))"
      using dropWhile_hd [of isWhiteSpace s] by simp
    with False show ?thesis
      by (cases "rev ?u") simp_all
  qed
  have "trim (trim s) = rev (dropWhile isWhiteSpace (rev (dropWhile isWhiteSpace (rev ?u))))"
    by (simp add: trim_def)
  also have "\<dots> = rev (dropWhile isWhiteSpace ?u)"
    by (simp only: a rev_rev_ident)
  also have "\<dots> = rev ?u"
    by (simp only: dropWhile_idem)
  finally show ?thesis
    by (simp add: trim_def)
qed

lemma normalize_string_idem:
  "toLowerCase (trim (toLowerCase (trim s))) = toLowerCase (trim s)"
  by (simp add: trim_toLowerCase trim_idem toLowerCase_idem)

text \<open>
  C7, as amended. Normalising the result of a normalisation changes nothing in the
  cross-match context (\<open>normalizeValue\<close>), for every cell value. In the signature context
  (the callback of \<open>createSignature\<close>) the same holds for every value other than
  \<^verbatim>\<open>null\<close> and \<^verbatim>\<open>undefined\<close>; these two normalise to the token \<open>NULL\<close>, which is not
  a fixed point: normalising it again gives \<open>null\<close>.
\<close>

theorem normalizer_idempotent:
  "normalizeValue (JStr (normalizeValue x)) = normalizeValue x
   \<and> (x \<noteq> JNull \<and> x \<noteq> JUndefined \<longrightarrow>
        signatureValue (JStr (signatureValue x)) = signatureValue x)
   \<and> (x = JNull \<or> x = JUndefined \<longrightarrow>
        signatureValue x = ''NULL'' \<and> signatureValue (JStr (signatureValue x)) = ''null'')"
proof -
  have n: "toLowerCase (trim []) = []"
    by (simp add: toLowerCase_def trim_def)
  have u: "toLowerCase (trim ''NULL'') = ''null''"
    by (simp add: eval_simps)
  show ?thesis
    by (auto simp: normalizeValue_def signatureValue_def normalize_string_idem n u)
qed

text \<open>
  C7 as stated fails in the signature context at \<^verbatim>\<open>null\<close>.
\<close>

theorem normalizer_idempotent_counterexample:
  "signatureValue (JStr (signatureValue JNull)) \<noteq> signatureValue JNull"
  by (simp add: eval_simps)

theorem normalizer_idempotent_witness:
  "normalizeValue (JStr (normalizeValue (JStr '' Ab ''))) = normalizeValue (JStr '' Ab '')
   \<and> normalizeValue (JStr '' Ab '') = ''ab''
   \<and> JStr '' Ab '' \<noteq> JNull \<and> JStr '' Ab '' \<noteq> JUndefined
   \<and> signatureValue (JStr (signatureValue (JStr '' Ab ''))) = signatureValue (JStr '' Ab '')
   \<and> signatureValue (JStr '' Ab '') = ''ab''
   \<and> signatureValue JUndefined = ''NULL''
   \<and> signatureValue (JStr (signatureValue JUndefined)) = ''null''"
proof -
  have e1: "normalizeValue (JStr '' Ab '') = ''ab''"
    and e2: "signatureValue (JStr '' Ab '') = ''ab''"
    by (simp_all add: eval_simps)
  from normalizer_idempotent [of "JStr '' Ab ''"]
  have a1: "normalizeValue (JStr (normalizeValue (JStr '' Ab ''))) = normalizeValue (JStr '' Ab '')"
    and a2: "signatureValue (JStr (signatureValue (JStr '' Ab ''))) = signatureValue (JStr '' Ab '')"
    by simp_all
  from normalizer_idempotent [of JUndefined]
  have b1: "signatureValue JUndefined = ''NULL''"
    and b2: "signatureValue (JStr (signatureValue JUndefined)) = ''null''"
    by blast+
  show ?thesis
    by (intro conjI; (fact a1 | fact a2 | fact b1 | fact b2 | fact e1 | fact e2 | simp))
qed

section \<open>Input rows are read, output rows are new\<close>

text \<open>
  The reducers of process-excel only read the store: they give back the store they were
  given, keep references to rows of the input, and compute what the reducers over row
  values compute on the rows behind the references.
\<close>

lemma createSignature_store_eq:
  "createSignature_store h r cols = createSignature (h ! r) cols"
  by (simp add: createSignature_store_def createSignature_def readField_def)

lemma exactStep_store_refines:
  "\<exists>seen' uniq' dups'.
      exactStep_store cols (h, seen, uniq, dups) i r = (h, seen', uniq', dups')
    \<and> set uniq' \<subseteq> insert r (set uniq)
    \<and> exactStep cols (seen, map ((!) h) uniq, dups) i (h ! r)
        = (seen', map ((!) h) uniq', dups')"
  by (cases "seen (createSignature (h ! r) cols)")
     (auto simp: Let_def createSignature_store_eq)

lemma exactLoop_store_refines:
  "\<exists>seen' uniq' dups'.
      exactLoop_store cols refs i (h, seen, uniq, dups) = (h, seen', uniq', dups')
    \<and> set uniq' \<subseteq> set uniq \<union> set refs
    \<and> exactLoop cols (map ((!) h) refs) i (seen, map ((!) h) uniq, dups)
        = (seen', map ((!) h) uniq', dups')"
proof (induction refs arbitrary: i seen uniq dups)
  case Nil
  then show ?case by simp
next
  case (Cons r refs)
  from exactStep_store_refines [of cols h seen uniq dups i r]
  obtain s1 u1 d1 where
    step: "exactStep_store cols (h, seen, uniq, dups) i r = (h, s1, u1, d1)"
    and sub: "set u1 \<subseteq> insert r (set uniq)"
    and pure: "exactStep cols (seen, map ((!) h) uniq, dups) i (h ! r) = (s1, map ((!) h) u1, d1)"
    by blast
  from Cons.IH [of "Suc i" s1 u1 d1]
  obtain s2 u2 d2 where
    loop: "exactLoop_store cols refs (Suc i) (h, s1, u1, d1) = (h, s2, u2, d2)"
    and sub2: "set u2 \<subseteq> set u1 \<union> set refs"
    and pure2: "exactLoop cols (map ((!) h) refs) (Suc i) (s1, map ((!) h) u1, d1)
                  = (s2, map ((!) h) u2, d2)"
    by blast
  have "exactLoop_store cols (r # refs) i (h, seen, uniq, dups) = (h, s2, u2, d2)"
    using step loop by simp
  moreover have "set u2 \<subseteq> set uniq \<union> set (r # refs)"
    using sub sub2 by auto
  moreover have "exactLoop cols (map ((!) h) (r # refs)) i (seen, map ((!) h) uniq, dups)
                   = (s2, map ((!) h) u2, d2)"
    using pure pure2 by simp
  ultimately show ?case by blast
qed

lemma fuzzyStep_store_refines:
  "\<exists>uniq' sigs' dups'.
      fuzzyStep_store lib cols t alg (h, uniq, sigs, dups) i r = (h, uniq', sigs', dups')
    \<and> set uniq' \<subseteq> insert r (set uniq)
    \<and> fuzzyStep lib cols t alg (map ((!) h) uniq, sigs, dups) i (h ! r)
        = (map ((!) h) uniq', sigs', dups')"
  by (cases "findSimilarMatch lib (createSignature (h ! r) cols) sigs t alg")
     (auto simp: Let_def createSignature_store_eq)

lemma fuzzyLoop_store_refines:
  "\<exists>uniq' sigs' dups'.
      fuzzyLoop_store lib cols t alg refs i (h, uniq, sigs, dups) = (h, uniq', sigs', dups')
    \<and> set uniq' \<subseteq> set uniq \<union> set refs
    \<and> fuzzyLoop lib cols t alg (map ((!) h) refs) i (map ((!) h) uniq, sigs, dups)
        = (map ((!) h) uniq', sigs', dups')"
proof (induction refs arbitrary: i uniq sigs dups)
  case Nil
  then show ?case by simp
next
  case (Cons r refs)
  from fuzzyStep_store_refines [of lib cols t alg h uniq sigs dups i r]
  obtain u1 s1 d1 where
    step: "fuzzyStep_store lib cols t alg (h, uniq, sigs, dups) i r = (h, u1, s1, d1)"
    and sub: "set u1 \<subseteq> insert r (set uniq)"
    and pure: "fuzzyStep lib cols t alg (map ((!) h) uniq, sigs, dups) i (h ! r)
                 = (map ((!) h) u1, s1, d1)"
    by blast
  from Cons.IH [of "Suc i" u1 s1 d1]
  obtain u2 s2 d2 where
    loop: "fuzzyLoop_store lib cols t alg refs (Suc i) (h, u1, s1, d1) = (h, u2, s2, d2)"
    and sub2: "set u2 \<subseteq> set u1 \<union> set refs"
    and pure2: "fuzzyLoop lib cols t alg (map ((!) h) refs) (Suc i) (map ((!) h) u1, s1, d1)
                  = (map ((!) h) u2, s2, d2)"
    by blast
  have "fuzzyLoop_store lib cols t alg (r # refs) i (h, uniq, sigs, dups) = (h, u2, s2, d2)"
    using step loop by simp
  moreover have "set u2 \<subseteq> set uniq \<union> set (r # refs)"
    using sub sub2 by auto
  moreover have "fuzzyLoop lib cols t alg (map ((!) h) (r # refs)) i (map ((!) h) uniq, sigs, dups)
                   = (map ((!) h) u2, s2, d2)"
    using pure pure2 by simp
  ultimately show ?case by blast
qed

lemma removeDuplicateRows_store_refines:
  "\<exists>res. removeDuplicateRows_store lib h refs cols mode t alg = (h, res)
       \<and> set (uniqueRows res) \<subseteq> set refs
       \<and> removeDuplicateRows lib (map ((!) h) refs) cols mode t alg
           = \<lparr>uniqueRows = map ((!) h) (uniqueRows res),
              duplicatesFound = duplicatesFound res\<rparr>"
proof (cases mode)
  case Exact
  from exactLoop_store_refines [of cols refs 0 h Map.empty "[]" "[]"]
  obtain s u d where
    "exactLoop_store cols refs 0 (h, Map.empty, [], []) = (h, s, u, d)"
    "set u \<subseteq> set refs"
    "exactLoop cols (map ((!) h) refs) 0 (Map.empty, [], []) = (s, map ((!) h) u, d)"
    by auto
  with Exact show ?thesis
    by (simp add: removeDuplicateRows_store_def removeExactDuplicates_store_def
          removeDuplicateRows_def removeExactDuplicates_def)
next
  case Fuzzy
  from fuzzyLoop_store_refines [of lib cols t alg refs 0 h "[]" "[]" "[]"]
  obtain u s d where
    "fuzzyLoop_store lib cols t alg refs 0 (h, [], [], []) = (h, u, s, d)"
    "set u \<subseteq> set refs"
    "fuzzyLoop lib cols t alg (map ((!) h) refs) 0 ([], [], []) = (map ((!) h) u, s, d)"
    by auto
  with Fuzzy show ?thesis
    by (simp add: removeDuplicateRows_store_def removeFuzzyDuplicates_store_def
          removeDuplicateRows_def removeFuzzyDuplicates_def)
qed

lemma withIsni_store_alloc:
  "withIsni_store cols h r = (h @ [withIsni cols (h ! r)], length h)"
  by (simp add: withIsni_store_def withIsni_def isniAnnotation_def alloc_def readField_def
        Let_def)

lemma mapWithIsni_store_extends:
  "\<exists>new. fst (mapWithIsni_store cols h rs) = h @ new"
proof (induction rs arbitrary: h)
  case Nil
  then show ?case by simp
next
  case (Cons r rs)
  from Cons.IH [of "h @ [withIsni cols (h ! r)]"] obtain new where
    "fst (mapWithIsni_store cols (h @ [withIsni cols (h ! r)]) rs)
       = (h @ [withIsni cols (h ! r)]) @ new" ..
  then have "fst (mapWithIsni_store cols h (r # rs)) = h @ (withIsni cols (h ! r) # new)"
    by (cases "mapWithIsni_store cols (h @ [withIsni cols (h ! r)]) rs")
       (simp add: withIsni_store_alloc)
  then show ?case ..
qed

lemma mapWithIsni_store_valid:
  "\<forall>r\<in>set rs. r < length h \<Longrightarrow>
     mapWithIsni_store cols h rs
       = (h @ map (\<lambda>r. withIsni cols (h ! r)) rs, [length h..<length h + length rs])"
proof (induction rs arbitrary: h)
  case Nil
  then show ?case by simp
next
  case (Cons r rs)
  let ?h1 = "h @ [withIsni cols (h ! r)]"
  from Cons.prems have v: "\<forall>r'\<in>set rs. r' < length ?h1"
    by auto
  have same: "map (\<lambda>r'. withIsni cols (?h1 ! r')) rs = map (\<lambda>r'. withIsni cols (h ! r')) rs"
    using Cons.prems by (auto simp: nth_append)
  have up: "length h # [Suc (length h)..<Suc (length h + length rs)]
              = [length h..<Suc (length h + length rs)]"
    by (rule upt_conv_Cons [symmetric]) simp
  from Cons.IH [OF v] show ?case
    by (simp add: withIsni_store_alloc same up del: upt_Suc)
qed

lemma pe_POST_store_frame: "take (length h) (fst (pe_POST_store lib h body)) = h"
proof -
  have ext: "take (length h) (fst (mapWithIsni_store cols h rs)) = h" for cols rs
    using mapWithIsni_store_extends [of cols h rs] by auto
  have "\<exists>new. fst (pe_POST_store lib h body) = h @ new"
  proof (cases "\<exists>d cols. data body = Some d \<and> d \<noteq> [] \<and> columns body = Some cols \<and> cols \<noteq> []")
    case False
    then have "fst (pe_POST_store lib h body) = h"
      by (auto simp: pe_POST_store_def Let_def split: option.split)
    then show ?thesis by simp
  next
    case True
    then obtain d cols where b: "data body = Some d" "d \<noteq> []" "columns body = Some cols" "cols \<noteq> []"
      by blast
    let ?sl = "slice d (case sliceStart body of None \<Rightarrow> 0 | Some s \<Rightarrow> s)
                   (case sliceEnd body of None \<Rightarrow> int (length d) | Some e \<Rightarrow> e)"
    from removeDuplicateRows_store_refines
    obtain res where
      r: "removeDuplicateRows_store lib h ?sl cols
            (case comparisonMode body of None \<Rightarrow> Fuzzy | Some m \<Rightarrow> m)
            (case ProcessRequest.similarityThreshold body of None \<Rightarrow> 0.8 | Some t \<Rightarrow> t)
            (case ProcessRequest.similarityAlgorithm body of None \<Rightarrow> JaroWinkler | Some a \<Rightarrow> a)
          = (h, res)"
      by blast
    have "fst (pe_POST_store lib h body) = fst (mapWithIsni_store cols h (uniqueRows res))"
      using b r by (simp add: pe_POST_store_def Let_def split: prod.split)
    then show ?thesis
      using mapWithIsni_store_extends [of cols h "uniqueRows res"] by simp
  qed
  then show ?thesis by auto
qed


lemma slice_map: "slice (map f xs) a b = map f (slice xs a b)"
  by (simp add: slice_def Let_def take_map drop_map)

lemma pe_POST_store_Json:
  assumes d: "data body = Some refs"
    and valid: "\<forall>a\<in>set refs. a < length h"
    and out: "snd (pe_POST_store lib h body) = JsonResponse res"
  shows "\<exists>cols accepted.
            columns body = Some cols \<and> set accepted \<subseteq> set refs
          \<and> fst (pe_POST_store lib h body) = h @ map (\<lambda>r. withIsni cols (h ! r)) accepted
          \<and> uniqueRows res = [length h..<length h + length accepted]"
proof -
  from out d have ne: "refs \<noteq> []"
    by (auto simp: pe_POST_store_def Let_def split: if_splits)
  from out d ne obtain cols where c: "columns body = Some cols" "cols \<noteq> []"
    by (cases "columns body") (auto simp: pe_POST_store_def Let_def split: if_splits)
  let ?sl = "slice refs (case sliceStart body of None \<Rightarrow> 0 | Some s \<Rightarrow> s)
                   (case sliceEnd body of None \<Rightarrow> int (length refs) | Some e \<Rightarrow> e)"
  from removeDuplicateRows_store_refines
  obtain r where
    r: "removeDuplicateRows_store lib h ?sl cols
          (case comparisonMode body of None \<Rightarrow> Fuzzy | Some m \<Rightarrow> m)
          (case ProcessRequest.similarityThreshold body of None \<Rightarrow> 0.8 | Some t \<Rightarrow> t)
          (case ProcessRequest.similarityAlgorithm body of None \<Rightarrow> JaroWinkler | Some a \<Rightarrow> a)
        = (h, r)"
    and sub: "set (uniqueRows r) \<subseteq> set ?sl"
    by blast
  from sub have sub': "set (uniqueRows r) \<subseteq> set refs"
    using set_slice [of refs] by blast
  with valid have v: "\<forall>a\<in>set (uniqueRows r). a < length h"
    by blast
  note m = mapWithIsni_store_valid [OF v, of cols]
  have run: "pe_POST_store lib h body
               = (h @ map (\<lambda>r. withIsni cols (h ! r)) (uniqueRows r),
                  JsonResponse
                    \<lparr>uniqueRows = [length h..<length h + length (uniqueRows r)],
                     duplicatesFound = duplicatesFound r,
                     originalCount = int (length refs),
                     uniqueCount = int (length (uniqueRows r)),
                     removedCount = int (length refs) - int (length (uniqueRows r))\<rparr>)"
    using d ne c r m by (simp add: pe_POST_store_def Let_def)
  with out have "uniqueRows res = [length h..<length h + length (uniqueRows r)]"
    by auto
  with run c sub' show ?thesis
    by (intro exI [of _ cols] exI [of _ "uniqueRows r"]) simp
qed

lemma pe_POST_store_refines:
  assumes valid: "\<forall>refs. data body = Some refs \<longrightarrow> (\<forall>a\<in>set refs. a < length h)"
  shows "pe_POST lib (processRequestAt h body)
         = (case pe_POST_store lib h body of
              (h', ErrorResponse msg code) \<Rightarrow> ErrorResponse msg code
            | (h', JsonResponse res) \<Rightarrow> JsonResponse (processResultAt h' res))"
proof (cases "\<exists>d cols. data body = Some d \<and> d \<noteq> [] \<and> columns body = Some cols \<and> cols \<noteq> []")
  case False
  then show ?thesis
    by (auto simp: pe_POST_store_def pe_POST_def processRequestAt_def Let_def
          split: option.split)
next
  case True
  then obtain refs cols where
    b: "data body = Some refs" "refs \<noteq> []" "columns body = Some cols" "cols \<noteq> []"
    by blast
  let ?sl = "slice refs (case sliceStart body of None \<Rightarrow> 0 | Some s \<Rightarrow> s)
                   (case sliceEnd body of None \<Rightarrow> int (length refs) | Some e \<Rightarrow> e)"
  let ?mode = "case comparisonMode body of None \<Rightarrow> Fuzzy | Some m \<Rightarrow> m"
  let ?t = "case ProcessRequest.similarityThreshold body of None \<Rightarrow> 0.8 | Some t \<Rightarrow> t"
  let ?alg = "case ProcessRequest.similarityAlgorithm body of None \<Rightarrow> JaroWinkler | Some a \<Rightarrow> a"
  from removeDuplicateRows_store_refines [of lib h ?sl cols ?mode ?t ?alg]
  obtain r where
    r: "removeDuplicateRows_store lib h ?sl cols ?mode ?t ?alg = (h, r)"
    and sub: "set (uniqueRows r) \<subseteq> set ?sl"
    and pure: "removeDuplicateRows lib (map ((!) h) ?sl) cols ?mode ?t ?alg
                 = \<lparr>uniqueRows = map ((!) h) (uniqueRows r),
                    duplicatesFound = duplicatesFound r\<rparr>"
    by blast
  from sub valid b(1) have v: "\<forall>a\<in>set (uniqueRows r). a < length h"
    using set_slice [of refs] by blast
  note m = mapWithIsni_store_valid [OF v, of cols]
  have en: "(case sliceEnd body of None \<Rightarrow> int (length (map ((!) h) refs)) | Some e \<Rightarrow> e)
              = (case sliceEnd body of None \<Rightarrow> int (length refs) | Some e \<Rightarrow> e)"
    by (simp split: option.split)
  have new: "map ((!) (h @ map (\<lambda>r. withIsni cols (h ! r)) (uniqueRows r)))
               [length h..<length h + length (uniqueRows r)]
             = map (withIsni cols) (map ((!) h) (uniqueRows r))"
    by (rule nth_equalityI) (simp_all add: nth_append)
  have run: "pe_POST_store lib h body
               = (h @ map (\<lambda>r. withIsni cols (h ! r)) (uniqueRows r),
                  JsonResponse
                    \<lparr>uniqueRows = [length h..<length h + length (uniqueRows r)],
                     duplicatesFound = duplicatesFound r,
                     originalCount = int (length refs),
                     uniqueCount = int (length (uniqueRows r)),
                     removedCount = int (length refs) - int (length (uniqueRows r))\<rparr>)"
    using b r m by (simp add: pe_POST_store_def Let_def)
  have "pe_POST lib (processRequestAt h body)
        = JsonResponse
            \<lparr>uniqueRows = map (withIsni cols) (map ((!) h) (uniqueRows r)),
             duplicatesFound = duplicatesFound r,
             originalCount = int (length refs),
             uniqueCount = int (length (uniqueRows r)),
             removedCount = int (length refs) - int (length (uniqueRows r))\<rparr>"
    using b pure by (simp add: pe_POST_def processRequestAt_def Let_def slice_map en)
  then show ?thesis
    unfolding run by (simp add: new processResultAt_def)
qed

text \<open>
  An assignment to a field of a row of the request shows in the store. In match-columns
  the only assignments are to the two objects a step has just created.
\<close>

lemma writeField_writes:
  "writeField ([isniRow], False) 0 ''isni'' JNull = ([[''isni'' \<mapsto> JNull]], False)"
  by (simp add: writeField_def assignField_def isniRow_def)

lemma writeField_frame:
  "n \<le> a \<Longrightarrow> take n (fst (writeField (h, np) a col v)) = take n h"
  "length (fst (writeField (h, np) a col v)) = length h"
  by (simp_all add: writeField_def split: prod.split)

lemma copyFields_store_frame:
  "n \<le> obj \<Longrightarrow>
     take n (fst (copyFields_store obj src (h, np) cols)) = take n h
   \<and> length (fst (copyFields_store obj src (h, np) cols)) = length h"
proof (induction cols arbitrary: h np)
  case Nil
  then show ?case by simp
next
  case (Cons col cols)
  obtain h1 np1 where w: "writeField (h, np) obj col (readField h src col) = (h1, np1)"
    by (cases "writeField (h, np) obj col (readField h src col)") auto
  from writeField_frame(1) [of n obj h np col "readField h src col"]
    writeField_frame(2) [of h np obj col "readField h src col"] Cons.prems w
  have "take n h1 = take n h" "length h1 = length h"
    by simp_all
  with Cons.IH [OF Cons.prems, of h1 np1] w show ?case
    by simp
qed

lemma matchStep_store_frame:
  assumes "n \<le> length h"
    and "matchStep_store lib p (h, ms, matched, unmatched) i r = (h', ms', matched', unmatched')"
  shows "take n h' = take n h \<and> length h \<le> length h'"
proof -
  let ?h2 = "fst (copyFields_store (length h) r (h @ [Map.empty], False) (spFile1Additional p))"
  let ?h3 = "?h2 @ [Map.empty]"
  from assms(1)
    copyFields_store_frame [where n = n and obj = "length h" and src = r
      and h = "h @ [Map.empty]" and np = False and cols = "spFile1Additional p"]
  have h2: "take n ?h2 = take n h" "length ?h2 = Suc (length h)"
    by simp_all
  then have h3: "take n ?h3 = take n h" "length ?h3 = Suc (Suc (length h))"
    using assms(1) by simp_all
  show ?thesis
  proof (cases "findBestMatch_store lib (normalizeValue (readField h r (spFile1Column p)))
                  (spFile2Values p) (spThreshold p) (spAlgorithm p)")
    case None
    with assms(2) have "h' = ?h3"
      by (simp add: alloc_def Let_def)
    with h3 show ?thesis by simp
  next
    case (Some b)
    let ?h4 = "fst (copyFields_store (length ?h2) (sMatchRow b) (?h3, False)
                      (spFile2Additional p))"
    from Some assms(2) have "h' = ?h4"
      by (simp add: alloc_def Let_def)
    moreover from assms(1) h2(2)
      copyFields_store_frame [where n = n and obj = "length ?h2" and src = "sMatchRow b"
        and h = ?h3 and np = False and cols = "spFile2Additional p"]
    have "take n ?h4 = take n ?h3" "length ?h4 = length ?h3"
      by simp_all
    ultimately show ?thesis
      using h3 by simp
  qed
qed

lemma matchLoop_store_frame:
  "n \<le> length h \<Longrightarrow>
   matchLoop_store lib p refs i (h, ms, matched, unmatched) = (h', ms', matched', unmatched')
   \<Longrightarrow> take n h' = take n h \<and> length h \<le> length h'"
proof (induction refs arbitrary: i h ms matched unmatched)
  case Nil
  then show ?case by simp
next
  case (Cons r refs)
  obtain h1 ms1 m1 u1 where
    step: "matchStep_store lib p (h, ms, matched, unmatched) i r = (h1, ms1, m1, u1)"
    by (cases "matchStep_store lib p (h, ms, matched, unmatched) i r") auto
  from matchStep_store_frame [OF Cons.prems(1) step]
  have f1: "take n h1 = take n h" "length h \<le> length h1"
    by simp_all
  with Cons.prems(1) have n1: "n \<le> length h1"
    by simp
  from Cons.prems(2) step
  have "matchLoop_store lib p refs (Suc i) (h1, ms1, m1, u1) = (h', ms', matched', unmatched')"
    by simp
  from Cons.IH [OF n1 this] f1 show ?case
    by simp
qed

lemma mc_POST_store_frame: "take (length h) (fst (mc_POST_store lib h body)) = h"
proof (cases "\<exists>f1 f2 c1 c2. file1Data body = Some f1 \<and> f1 \<noteq> [] \<and> file2Data body = Some f2
                \<and> f2 \<noteq> [] \<and> file1Column body = Some c1 \<and> file2Column body = Some c2
                \<and> c1 \<noteq> [] \<and> c2 \<noteq> []")
  case False
  then have "fst (mc_POST_store lib h body) = h"
    by (auto simp: mc_POST_store_def Let_def split: option.split)
  then show ?thesis by simp
next
  case True
  then obtain f1 f2 c1 c2 where
    b: "file1Data body = Some f1" "f1 \<noteq> []" "file2Data body = Some f2" "f2 \<noteq> []"
       "file1Column body = Some c1" "file2Column body = Some c2" "c1 \<noteq> []" "c2 \<noteq> []"
    by blast
  let ?p = "\<lparr>spFile2Values = file2ValuesOf_store h f2 c2,
             spFile1Column = c1, spFile2Column = c2,
             spFile1Additional = (case file1AdditionalColumns body of None \<Rightarrow> [] | Some c \<Rightarrow> c),
             spFile2Additional = (case file2AdditionalColumns body of None \<Rightarrow> [] | Some c \<Rightarrow> c),
             spThreshold = (case similarityThreshold body of None \<Rightarrow> 0.8 | Some t \<Rightarrow> t),
             spAlgorithm = (case similarityAlgorithm body of None \<Rightarrow> Dice | Some a \<Rightarrow> a)\<rparr>"
  obtain h' ms m u where
    loop: "matchLoop_store lib ?p f1 0 (h, [], 0, 0) = (h', ms, m, u)"
    by (cases "matchLoop_store lib ?p f1 0 (h, [], 0, 0)") auto
  from matchLoop_store_frame [OF le_refl loop] have "take (length h) h' = h"
    by simp
  moreover have "fst (mc_POST_store lib h body) = h'"
    using b loop by (simp add: mc_POST_store_def Let_def)
  ultimately show ?thesis by simp
qed

text \<open>
  Over valid references the handler of match-columns over the store answers what the
  handler over row values answers: each step appends its two new objects to the store,
  and they hold the additional data of the entry.
\<close>

lemma findBestMatchLoop_store_refines:
  "fst (findBestMatchLoop lib s (map (entryAt h) es) t alg (map_option (bestAt h) best, scored))
     = map_option (bestAt h) (findBestMatchLoop_store lib s es t alg best)"
proof (induction es arbitrary: best scored)
  case Nil
  then show ?case by simp
next
  case (Cons e es)
  let ?sc = "mc_calculateSimilarity lib s (sEntryValue e) alg"
  let ?new = "\<lparr>sMatchIndex = sEntryIndex e, sMatchScore = ?sc, sMatchRow = sEntryRow e\<rparr>"
  let ?b = "if ?sc \<ge> t \<and> (case best of None \<Rightarrow> True | Some b \<Rightarrow> ?sc > sMatchScore b)
            then Some ?new else best"
  have "fst (findBestMatchLoop lib s (map (entryAt h) (e # es)) t alg
               (map_option (bestAt h) best, scored))
        = fst (findBestMatchLoop lib s (map (entryAt h) es) t alg
               (map_option (bestAt h) ?b, scored @ [entryAt h e]))"
    by (cases best) (simp_all add: Let_def bestAt_def entryAt_def)
  also have "\<dots> = map_option (bestAt h) (findBestMatchLoop_store lib s es t alg ?b)"
    by (rule Cons.IH)
  also have "\<dots> = map_option (bestAt h) (findBestMatchLoop_store lib s (e # es) t alg best)"
    by (simp add: Let_def)
  finally show ?case .
qed

lemma findBestMatch_store_refines:
  "fst (findBestMatch lib s (map (entryAt h) es) t alg)
     = map_option (bestAt h) (findBestMatch_store lib s es t alg)"
  using findBestMatchLoop_store_refines [of lib s h es t alg None "[]"]
  by (simp add: findBestMatch_def findBestMatch_store_def)

lemma findBestMatchLoop_store_row:
  "findBestMatchLoop_store lib s es t alg best = Some b \<Longrightarrow>
     sMatchRow b \<in> sEntryRow ` set es \<or> best = Some b"
proof (induction es arbitrary: best)
  case Nil
  then show ?case by simp
next
  case (Cons e es)
  let ?sc = "mc_calculateSimilarity lib s (sEntryValue e) alg"
  let ?new = "\<lparr>sMatchIndex = sEntryIndex e, sMatchScore = ?sc, sMatchRow = sEntryRow e\<rparr>"
  let ?b = "if ?sc \<ge> t \<and> (case best of None \<Rightarrow> True | Some b \<Rightarrow> ?sc > sMatchScore b)
            then Some ?new else best"
  from Cons.prems have "findBestMatchLoop_store lib s es t alg ?b = Some b"
    by (simp add: Let_def)
  from Cons.IH [OF this] show ?case
    by (auto split: if_splits)
qed

lemma findBestMatch_store_row:
  "findBestMatch_store lib s es t alg = Some b \<Longrightarrow> sMatchRow b \<in> sEntryRow ` set es"
  using findBestMatchLoop_store_row [of lib s es t alg None b]
  by (simp add: findBestMatch_store_def split: if_splits)

lemma enumerate_map: "enumerate n (map f xs) = map (\<lambda>(i, x). (i, f x)) (enumerate n xs)"
  by (induction xs arbitrary: n) simp_all

lemma file2ValuesOf_store_refines:
  "file2ValuesOf (map ((!) h) refs) col = map (entryAt h) (file2ValuesOf_store h refs col)"
  by (simp add: file2ValuesOf_def file2ValuesOf_store_def enumerate_map entryAt_def
        readField_def split_def)

lemma file2ValuesOf_store_rows:
  "sEntryRow ` set (file2ValuesOf_store h refs col) = set refs"
proof -
  have "map sEntryRow (file2ValuesOf_store h refs col) = map snd (enumerate 0 refs)"
    by (simp add: file2ValuesOf_store_def split_def comp_def)
  also have "\<dots> = refs"
    by (rule map_snd_enumerate)
  finally have "set (map sEntryRow (file2ValuesOf_store h refs col)) = set refs"
    by simp
  then show ?thesis by simp
qed

lemma additionalData_proto:
  "additionalData [''a'' \<mapsto> JStr ''x''] [''__proto__'', ''a''] = [''a'' \<mapsto> JStr ''x'']"
  "additionalData [''__proto__'' \<mapsto> JStr ''x''] [''__proto__'', ''__proto__''] = Map.empty"
  "additionalData [''__proto__'' \<mapsto> JNull] [''__proto__'', ''__proto__'']
     = [''__proto__'' \<mapsto> JNull]"
  by (simp_all add: additionalData_def assignField_def getField_def inheritedProperty_def)

lemma copyFields_store_fresh:
  "obj < length h \<Longrightarrow> src \<noteq> obj \<Longrightarrow>
     copyFields_store obj src (h, np) cols
       = (h[obj := fst (foldl (\<lambda>ob col. assignField ob col (getField (h ! src) col))
                          (h ! obj, np) cols)],
          snd (foldl (\<lambda>ob col. assignField ob col (getField (h ! src) col))
                 (h ! obj, np) cols))"
proof (induction cols arbitrary: h np)
  case Nil
  then show ?case by simp
next
  case (Cons col cols)
  let ?F = "\<lambda>r ob c. assignField ob c (getField r c)"
  obtain ob1 np1 where a: "assignField (h ! obj, np) col (getField (h ! src) col) = (ob1, np1)"
    by (cases "assignField (h ! obj, np) col (getField (h ! src) col)") auto
  let ?h1 = "h[obj := ob1]"
  from a have w: "writeField (h, np) obj col (readField (fst (h, np)) src col) = (?h1, np1)"
    by (simp add: writeField_def readField_def)
  from Cons.prems have p: "obj < length ?h1"
    by simp
  from Cons.prems have s: "?h1 ! src = h ! src"
    by simp
  from Cons.prems have o: "?h1 ! obj = ob1"
    by simp
  have "copyFields_store obj src (h, np) (col # cols) = copyFields_store obj src (?h1, np1) cols"
    by (simp only: copyFields_store.simps w)
  also from Cons.IH [OF p Cons.prems(2)]
  have "\<dots> = (?h1[obj := fst (foldl (?F (?h1 ! src)) (?h1 ! obj, np1) cols)],
               snd (foldl (?F (?h1 ! src)) (?h1 ! obj, np1) cols))" .
  also have "\<dots> = (?h1[obj := fst (foldl (?F (h ! src)) (ob1, np1) cols)],
                    snd (foldl (?F (h ! src)) (ob1, np1) cols))"
    by (simp only: s o)
  also have "\<dots> = (h[obj := fst (foldl (?F (h ! src)) (ob1, np1) cols)],
                    snd (foldl (?F (h ! src)) (ob1, np1) cols))"
    by (simp only: list_update_overwrite)
  also have "foldl (?F (h ! src)) (ob1, np1) cols = foldl (?F (h ! src)) (h ! obj, np) (col # cols)"
    by (simp add: a)
  finally show ?case .
qed

lemma copyFields_store_new:
  assumes "src < length h"
  shows "fst (copyFields_store (length h) src (h @ [Map.empty], False) cols)
           = h @ [additionalData (h ! src) cols]"
proof -
  from assms have ne: "src \<noteq> length h" by simp
  from assms have eq: "(h @ [Map.empty]) ! src = h ! src"
    by (simp add: nth_append)
  have "copyFields_store (length h) src (h @ [Map.empty], False) cols
          = ((h @ [Map.empty])[length h :=
               fst (foldl (\<lambda>ob col. assignField ob col (getField ((h @ [Map.empty]) ! src) col))
                      ((h @ [Map.empty]) ! length h, False) cols)],
             snd (foldl (\<lambda>ob col. assignField ob col (getField ((h @ [Map.empty]) ! src) col))
                    ((h @ [Map.empty]) ! length h, False) cols))"
    by (rule copyFields_store_fresh [OF _ ne]) simp
  then show ?thesis
    by (simp add: eq additionalData_def)
qed

lemma matchStep_store_refines:
  assumes r: "r < length h"
    and es: "\<forall>e\<in>set (spFile2Values p). sEntryRow e < length h"
  shows "\<exists>h' e matched' unmatched'.
            matchStep_store lib p (h, ms, matched, unmatched) i r
              = (h', ms @ [e], matched', unmatched')
          \<and> take (length h) h' = h \<and> length h' = Suc (Suc (length h))
          \<and> sFile1AdditionalData e = length h \<and> sFile2AdditionalData e = Suc (length h)
          \<and> matchStep lib (paramsAt h p) (pms, matched, unmatched) i (h ! r)
              = (pms @ [matchEntryAt h' e], matched', unmatched')"
proof -
  let ?v1 = "normalizeValue (getField (h ! r) (spFile1Column p))"
  let ?best = "findBestMatch_store lib ?v1 (spFile2Values p) (spThreshold p) (spAlgorithm p)"
  let ?o1 = "additionalData (h ! r) (spFile1Additional p)"
  have h2: "fst (copyFields_store (length h) r (h @ [Map.empty], False) (spFile1Additional p))
              = h @ [?o1]"
    by (rule copyFields_store_new [OF r])
  have pbest: "fst (findBestMatch lib ?v1 (pFile2Values (paramsAt h p)) (pThreshold (paramsAt h p))
                 (pAlgorithm (paramsAt h p)))
               = map_option (bestAt h) ?best"
    by (simp add: paramsAt_def findBestMatch_store_refines)
  have pp: "pFile1Column (paramsAt h p) = spFile1Column p"
           "pFile2Column (paramsAt h p) = spFile2Column p"
           "pFile1Additional (paramsAt h p) = spFile1Additional p"
           "pFile2Additional (paramsAt h p) = spFile2Additional p"
    by (simp_all add: paramsAt_def)
  show ?thesis
  proof (cases ?best)
    case None
    let ?h' = "h @ [?o1, Map.empty]"
    let ?e = "\<lparr>sFile1RowIndex = i, sFile2RowIndex = None,
               sFile1Value = getField (h ! r) (spFile1Column p),
               sFile2Value = JNull, sScore = 0,
               sFile1AdditionalData = length h,
               sFile2AdditionalData = Suc (length h)\<rparr>"
    have rd: "readField ?h' r (spFile1Column p) = getField (h ! r) (spFile1Column p)"
      using r by (simp add: readField_def nth_append)
    have run: "matchStep_store lib p (h, ms, matched, unmatched) i r
                 = (?h', ms @ [?e], matched, unmatched + 1)"
      using None by (simp add: Let_def alloc_def readField_def [of h] h2 rd)
    have at: "matchEntryAt ?h' ?e
                = \<lparr>file1RowIndex = i, file2RowIndex = None,
                   file1Value = getField (h ! r) (spFile1Column p),
                   file2Value = JNull, score = 0,
                   file1AdditionalData = ?o1, file2AdditionalData = Map.empty\<rparr>"
      by (simp add: matchEntryAt_def nth_append)
    have pure: "matchStep lib (paramsAt h p) (pms, matched, unmatched) i (h ! r)
                  = (pms @ [matchEntryAt ?h' ?e], matched, unmatched + 1)"
      unfolding at using None by (simp add: Let_def pp pbest)
    show ?thesis
      by (rule exI [of _ ?h'], rule exI [of _ ?e], rule exI [of _ matched],
          rule exI [of _ "unmatched + 1"])
         (simp add: run pure del: matchStep_store.simps matchStep.simps)
  next
    case (Some b)
    from findBestMatch_store_row [OF Some] es have row: "sMatchRow b < length h"
      by auto
    let ?o2 = "additionalData (h ! sMatchRow b) (spFile2Additional p)"
    let ?h' = "h @ [?o1, ?o2]"
    let ?e = "\<lparr>sFile1RowIndex = i, sFile2RowIndex = Some (sMatchIndex b),
               sFile1Value = getField (h ! r) (spFile1Column p),
               sFile2Value = orNull (getField (h ! sMatchRow b) (spFile2Column p)),
               sScore = sMatchScore b,
               sFile1AdditionalData = length h,
               sFile2AdditionalData = Suc (length h)\<rparr>"
    from row have row': "sMatchRow b < length (h @ [?o1])"
      by simp
    from copyFields_store_new [OF row', of "spFile2Additional p"] row
    have h4: "fst (copyFields_store (Suc (length h)) (sMatchRow b) (h @ [?o1, Map.empty], False)
                     (spFile2Additional p)) = ?h'"
      by (simp add: nth_append)
    have rd: "readField ?h' r (spFile1Column p) = getField (h ! r) (spFile1Column p)"
             "readField ?h' (sMatchRow b) (spFile2Column p)
                = getField (h ! sMatchRow b) (spFile2Column p)"
      using r row by (simp_all add: readField_def nth_append)
    have run: "matchStep_store lib p (h, ms, matched, unmatched) i r
                 = (?h', ms @ [?e], matched + 1, unmatched)"
      using Some by (simp add: Let_def alloc_def readField_def [of h] h2 h4 rd)
    have at: "matchEntryAt ?h' ?e
                = \<lparr>file1RowIndex = i, file2RowIndex = Some (matchIndex (bestAt h b)),
                   file1Value = getField (h ! r) (spFile1Column p),
                   file2Value = orNull (getField (matchRow (bestAt h b)) (spFile2Column p)),
                   score = matchScore (bestAt h b),
                   file1AdditionalData = ?o1,
                   file2AdditionalData
                     = additionalData (matchRow (bestAt h b)) (spFile2Additional p)\<rparr>"
      by (simp add: matchEntryAt_def bestAt_def nth_append)
    have pure: "matchStep lib (paramsAt h p) (pms, matched, unmatched) i (h ! r)
                  = (pms @ [matchEntryAt ?h' ?e], matched + 1, unmatched)"
      unfolding at using Some by (simp add: Let_def pp pbest)
    show ?thesis
      by (rule exI [of _ ?h'], rule exI [of _ ?e], rule exI [of _ "matched + 1"],
          rule exI [of _ unmatched])
         (simp add: run pure del: matchStep_store.simps matchStep.simps)
  qed
qed


lemma nth_of_take: "take (length h) h1 = h \<Longrightarrow> a < length h \<Longrightarrow> h1 ! a = h ! a"
  by (metis nth_take)

lemma matchLoop_store_refines:
  assumes "\<forall>r\<in>set refs. r < length h"
    and "\<forall>e\<in>set (spFile2Values p). sEntryRow e < length h"
    and "\<forall>e\<in>set ms. sFile1AdditionalData e < length h \<and> sFile2AdditionalData e < length h"
  shows "\<exists>h' ms' matched' unmatched'.
            matchLoop_store lib p refs i (h, ms, matched, unmatched)
              = (h', ms', matched', unmatched')
          \<and> take (length h) h' = h
          \<and> matchLoop lib (paramsAt h p) (map ((!) h) refs) i
                (map (matchEntryAt h) ms, matched, unmatched)
              = (map (matchEntryAt h') ms', matched', unmatched')"
  using assms
proof (induction refs arbitrary: h ms matched unmatched i)
  case Nil
  then show ?case by simp
next
  case (Cons r refs)
  from Cons.prems(1) have r: "r < length h" by simp
  from matchStep_store_refines [OF r Cons.prems(2), of lib ms matched unmatched i
         "map (matchEntryAt h) ms"]
  obtain h1 e m1 u1 where
    step: "matchStep_store lib p (h, ms, matched, unmatched) i r = (h1, ms @ [e], m1, u1)"
    and tk: "take (length h) h1 = h"
    and len: "length h1 = Suc (Suc (length h))"
    and e1: "sFile1AdditionalData e = length h"
    and e2: "sFile2AdditionalData e = Suc (length h)"
    and pure: "matchStep lib (paramsAt h p) (map (matchEntryAt h) ms, matched, unmatched) i (h ! r)
                 = (map (matchEntryAt h) ms @ [matchEntryAt h1 e], m1, u1)"
    by blast
  note same = nth_of_take [OF tk]
  have refs1: "\<forall>r\<in>set refs. r < length h1"
    using Cons.prems(1) len by auto
  have es1: "\<forall>e\<in>set (spFile2Values p). sEntryRow e < length h1"
    using Cons.prems(2) len by auto
  have inv1: "\<forall>e\<in>set (ms @ [e]).
                sFile1AdditionalData e < length h1 \<and> sFile2AdditionalData e < length h1"
    using Cons.prems(3) len e1 e2 by auto
  have ms1: "map (matchEntryAt h1) ms = map (matchEntryAt h) ms"
    using Cons.prems(3) same by (simp add: matchEntryAt_def)
  have p1: "paramsAt h1 p = paramsAt h p"
    using Cons.prems(2) same by (simp add: paramsAt_def entryAt_def)
  have rows1: "map ((!) h1) refs = map ((!) h) refs"
    using Cons.prems(1) same by simp
  have "\<exists>h' ms' m' u'.
            matchLoop_store lib p refs (Suc i) (h1, ms @ [e], m1, u1) = (h', ms', m', u')
          \<and> take (length h1) h' = h1
          \<and> matchLoop lib (paramsAt h1 p) (map ((!) h1) refs) (Suc i)
                (map (matchEntryAt h1) (ms @ [e]), m1, u1)
              = (map (matchEntryAt h') ms', m', u')"
    by (rule Cons.IH [OF refs1 es1 inv1])
  then obtain h' ms' m' u' where
    loop: "matchLoop_store lib p refs (Suc i) (h1, ms @ [e], m1, u1) = (h', ms', m', u')"
    and tk': "take (length h1) h' = h1"
    and pure': "matchLoop lib (paramsAt h1 p) (map ((!) h1) refs) (Suc i)
                  (map (matchEntryAt h1) (ms @ [e]), m1, u1)
                = (map (matchEntryAt h') ms', m', u')"
    by blast
  have "matchLoop_store lib p (r # refs) i (h, ms, matched, unmatched) = (h', ms', m', u')"
    using step loop by (simp del: matchStep_store.simps)
  moreover have "take (length h) h' = h"
  proof -
    have "take (length h) h' = take (length h) (take (length h1) h')"
      using len by (simp add: min_def)
    also have "\<dots> = h"
      by (simp only: tk' tk)
    finally show ?thesis .
  qed
  moreover have "matchLoop lib (paramsAt h p) (map ((!) h) (r # refs)) i
                   (map (matchEntryAt h) ms, matched, unmatched)
                 = (map (matchEntryAt h') ms', m', u')"
    using pure pure' by (simp add: p1 rows1 ms1 del: matchStep.simps)
  ultimately show ?case by blast
qed

lemma mc_POST_store_refines:
  assumes v1: "\<forall>refs. file1Data body = Some refs \<longrightarrow> (\<forall>a\<in>set refs. a < length h)"
    and v2: "\<forall>refs. file2Data body = Some refs \<longrightarrow> (\<forall>a\<in>set refs. a < length h)"
  shows "mc_POST lib (matchRequestAt h body)
         = (case mc_POST_store lib h body of
              (h', ErrorResponse msg code) \<Rightarrow> ErrorResponse msg code
            | (h', JsonResponse res) \<Rightarrow> JsonResponse (matchResponseAt h' res))"
proof (cases "\<exists>f1 f2 c1 c2. file1Data body = Some f1 \<and> f1 \<noteq> [] \<and> file2Data body = Some f2
                \<and> f2 \<noteq> [] \<and> file1Column body = Some c1 \<and> file2Column body = Some c2
                \<and> c1 \<noteq> [] \<and> c2 \<noteq> []")
  case False
  then show ?thesis
    by (auto simp: mc_POST_store_def mc_POST_def matchRequestAt_def Let_def split: option.split)
next
  case True
  then obtain f1 f2 c1 c2 where
    b: "file1Data body = Some f1" "f1 \<noteq> []" "file2Data body = Some f2" "f2 \<noteq> []"
       "file1Column body = Some c1" "file2Column body = Some c2" "c1 \<noteq> []" "c2 \<noteq> []"
    by blast
  let ?p = "\<lparr>spFile2Values = file2ValuesOf_store h f2 c2,
             spFile1Column = c1, spFile2Column = c2,
             spFile1Additional = (case file1AdditionalColumns body of None \<Rightarrow> [] | Some c \<Rightarrow> c),
             spFile2Additional = (case file2AdditionalColumns body of None \<Rightarrow> [] | Some c \<Rightarrow> c),
             spThreshold = (case similarityThreshold body of None \<Rightarrow> 0.8 | Some t \<Rightarrow> t),
             spAlgorithm = (case similarityAlgorithm body of None \<Rightarrow> Dice | Some a \<Rightarrow> a)\<rparr>"
  from v1 b(1) have r1: "\<forall>r\<in>set f1. r < length h" by blast
  from v2 b(3) have "\<forall>r\<in>set f2. r < length h" by blast
  then have r2: "\<forall>e\<in>set (spFile2Values ?p). sEntryRow e < length h"
    using file2ValuesOf_store_rows [of h f2 c2] by auto
  have "\<exists>h' ms m u.
            matchLoop_store lib ?p f1 0 (h, [], 0, 0) = (h', ms, m, u)
          \<and> take (length h) h' = h
          \<and> matchLoop lib (paramsAt h ?p) (map ((!) h) f1) 0 (map (matchEntryAt h) [], 0, 0)
              = (map (matchEntryAt h') ms, m, u)"
    by (rule matchLoop_store_refines [OF r1 r2]) simp
  then obtain h' ms m u where
    loop: "matchLoop_store lib ?p f1 0 (h, [], 0, 0) = (h', ms, m, u)"
    and pure: "matchLoop lib (paramsAt h ?p) (map ((!) h) f1) 0 ([], 0, 0)
                 = (map (matchEntryAt h') ms, m, u)"
    by auto
  have pa: "paramsAt h ?p
              = \<lparr>pFile2Values = file2ValuesOf (map ((!) h) f2) c2,
                 pFile1Column = c1, pFile2Column = c2,
                 pFile1Additional = (case file1AdditionalColumns body of None \<Rightarrow> [] | Some c \<Rightarrow> c),
                 pFile2Additional = (case file2AdditionalColumns body of None \<Rightarrow> [] | Some c \<Rightarrow> c),
                 pThreshold = (case similarityThreshold body of None \<Rightarrow> 0.8 | Some t \<Rightarrow> t),
                 pAlgorithm = (case similarityAlgorithm body of None \<Rightarrow> Dice | Some a \<Rightarrow> a)\<rparr>"
    by (simp add: paramsAt_def file2ValuesOf_store_refines)
  have run: "mc_POST_store lib h body
               = (h', JsonResponse \<lparr>sMatches = ms, sTotalFile1Rows = length f1,
                                    sTotalFile2Rows = length f2, sMatchedCount = m,
                                    sUnmatchedCount = u\<rparr>)"
    using b loop by (simp add: mc_POST_store_def Let_def)
  have "mc_POST lib (matchRequestAt h body)
          = JsonResponse \<lparr>matches = map (matchEntryAt h') ms, totalFile1Rows = length f1,
                          totalFile2Rows = length f2, matchedCount = m, unmatchedCount = u\<rparr>"
    using b pure [unfolded pa] by (simp add: mc_POST_def matchRequestAt_def Let_def)
  then show ?thesis
    by (simp add: run matchResponseAt_def)
qed

lemma withIsni_fields:
  "withIsni cols r = r(''isni'' \<mapsto> JStr (isniAnnotation r cols))"
  "f \<noteq> ''isni'' \<Longrightarrow> withIsni cols r f = r f"
  "dom (withIsni cols r) = insert ''isni'' (dom r)"
  by (simp_all add: withIsni_def)

text \<open>
  C9, as amended. Neither handler changes an object of the store it is given: the store
  after a call starts with the store before it, whatever the request. When the dedup
  handler is given references to objects of the store and answers with rows, each
  returned row is a new object (its address is beyond the old store), made from an
  accepted input row by setting the field \<open>isni\<close> to the annotation: it agrees with that
  row on every field other than \<open>isni\<close>, and its fields are those of the row together with
  \<open>isni\<close>.
\<close>

theorem input_records_unchanged:
  "take (length h) (fst (pe_POST_store lib h body)) = h
   \<and> take (length h) (fst (mc_POST_store lib h mbody)) = h
   \<and> (\<forall>refs res.
         data body = Some refs \<and> (\<forall>a\<in>set refs. a < length h)
         \<and> snd (pe_POST_store lib h body) = JsonResponse res \<longrightarrow>
        (\<exists>cols accepted.
            columns body = Some cols
          \<and> set accepted \<subseteq> set refs
          \<and> length (uniqueRows res) = length accepted
          \<and> (\<forall>k<length accepted.
                 length h \<le> uniqueRows res ! k
               \<and> uniqueRows res ! k < length (fst (pe_POST_store lib h body))
               \<and> fst (pe_POST_store lib h body) ! (uniqueRows res ! k)
                   = (h ! (accepted ! k))
                       (''isni'' \<mapsto> JStr (isniAnnotation (h ! (accepted ! k)) cols))
               \<and> (\<forall>f. f \<noteq> ''isni'' \<longrightarrow>
                      (fst (pe_POST_store lib h body) ! (uniqueRows res ! k)) f
                        = (h ! (accepted ! k)) f)
               \<and> dom (fst (pe_POST_store lib h body) ! (uniqueRows res ! k))
                   = insert ''isni'' (dom (h ! (accepted ! k))))))"
proof (intro conjI allI impI)
  show "take (length h) (fst (pe_POST_store lib h body)) = h"
    by (rule pe_POST_store_frame)
next
  show "take (length h) (fst (mc_POST_store lib h mbody)) = h"
    by (rule mc_POST_store_frame)
next
  fix refs res
  assume a: "data body = Some refs \<and> (\<forall>a\<in>set refs. a < length h)
         \<and> snd (pe_POST_store lib h body) = JsonResponse res"
  then have d: "data body = Some refs" and valid: "\<forall>a\<in>set refs. a < length h"
    and out: "snd (pe_POST_store lib h body) = JsonResponse res"
    by simp_all
  from pe_POST_store_Json [OF d valid out] obtain cols accepted where
    c: "columns body = Some cols"
    and sub: "set accepted \<subseteq> set refs"
    and hp: "fst (pe_POST_store lib h body) = h @ map (\<lambda>r. withIsni cols (h ! r)) accepted"
    and ur: "uniqueRows res = [length h..<length h + length accepted]"
    by blast
  have len: "length (uniqueRows res) = length accepted"
    by (simp add: ur)
  have rows: "length h \<le> uniqueRows res ! k
        \<and> uniqueRows res ! k < length (fst (pe_POST_store lib h body))
        \<and> fst (pe_POST_store lib h body) ! (uniqueRows res ! k)
            = withIsni cols (h ! (accepted ! k))"
    if "k < length accepted" for k
    using that by (simp add: ur hp nth_append)
  show "\<exists>cols accepted.
            columns body = Some cols
          \<and> set accepted \<subseteq> set refs
          \<and> length (uniqueRows res) = length accepted
          \<and> (\<forall>k<length accepted.
                 length h \<le> uniqueRows res ! k
               \<and> uniqueRows res ! k < length (fst (pe_POST_store lib h body))
               \<and> fst (pe_POST_store lib h body) ! (uniqueRows res ! k)
                   = (h ! (accepted ! k))
                       (''isni'' \<mapsto> JStr (isniAnnotation (h ! (accepted ! k)) cols))
               \<and> (\<forall>f. f \<noteq> ''isni'' \<longrightarrow>
                      (fst (pe_POST_store lib h body) ! (uniqueRows res ! k)) f
                        = (h ! (accepted ! k)) f)
               \<and> dom (fst (pe_POST_store lib h body) ! (uniqueRows res ! k))
                   = insert ''isni'' (dom (h ! (accepted ! k))))"
  proof (intro exI [of _ cols] exI [of _ accepted] conjI allI impI)
    show "columns body = Some cols" by (rule c)
    show "set accepted \<subseteq> set refs" by (rule sub)
    show "length (uniqueRows res) = length accepted" by (rule len)
  next
    fix k assume "k < length accepted"
    then show "length h \<le> uniqueRows res ! k"
      using rows by blast
  next
    fix k assume "k < length accepted"
    then show "uniqueRows res ! k < length (fst (pe_POST_store lib h body))"
      using rows by blast
  next
    fix k assume "k < length accepted"
    then show "fst (pe_POST_store lib h body) ! (uniqueRows res ! k)
                   = (h ! (accepted ! k))
                       (''isni'' \<mapsto> JStr (isniAnnotation (h ! (accepted ! k)) cols))"
      using rows by (simp add: withIsni_fields(1))
  next
    fix k f assume "k < length accepted" and "f \<noteq> ''isni''"
    then show "(fst (pe_POST_store lib h body) ! (uniqueRows res ! k)) f
                 = (h ! (accepted ! k)) f"
      using rows by (simp add: withIsni_fields(2))
  next
    fix k assume "k < length accepted"
    then show "dom (fst (pe_POST_store lib h body) ! (uniqueRows res ! k))
                   = insert ''isni'' (dom (h ! (accepted ! k)))"
      using rows by (simp add: withIsni_fields(3))
  qed
qed

lemma isniRequest_run:
  "pe_POST_store sampleLib [isniRow] isniRequest
     = ([isniRow, withIsni [''isni''] isniRow],
        JsonResponse \<lparr>uniqueRows = [1], duplicatesFound = [],
           originalCount = 1, uniqueCount = 1, removedCount = 0\<rparr>)"
proof -
  have sl: "slice [0::nat] 0 1 = [0]"
    by (simp add: slice_def relativeIndex_def)
  have ex: "removeDuplicateRows_store sampleLib [isniRow] [0] [''isni''] Exact t alg
              = ([isniRow], \<lparr>uniqueRows = [0], duplicatesFound = []\<rparr>)" for t alg
    by (simp add: removeDuplicateRows_store_def removeExactDuplicates_store_def Let_def)
  show ?thesis
    by (simp add: pe_POST_store_def isniRequest_def Let_def sl ex withIsni_store_alloc)
qed

text \<open>
  C9 as stated fails for an input row that already has a field \<open>isni\<close>: the returned row
  differs from it on that field, and has no field more than it.
\<close>

theorem input_records_unchanged_counterexample:
  "snd (pe_POST_store sampleLib [isniRow] isniRequest)
     = JsonResponse \<lparr>uniqueRows = [1], duplicatesFound = [],
                     originalCount = 1, uniqueCount = 1, removedCount = 0\<rparr>
   \<and> (fst (pe_POST_store sampleLib [isniRow] isniRequest) ! 1) ''isni'' \<noteq> isniRow ''isni''
   \<and> dom (fst (pe_POST_store sampleLib [isniRow] isniRequest) ! 1) = dom isniRow"
proof -
  have ann: "isniAnnotation isniRow [''isni''] \<noteq> ''x''"
    by (simp add: isniAnnotation_def Let_def)
  show ?thesis
    unfolding isniRequest_run using ann by (simp add: withIsni_def isniRow_def)
qed

lemma sampleRefRequest_run:
  "snd (pe_POST_store sampleLib sampleRows sampleRefRequest)
     = JsonResponse
           \<lparr>uniqueRows = [3, 4],
            duplicatesFound = [\<lparr>original = ''a'', duplicate = ''a'', originalIndex = 0,
                                duplicateIndex = 1, DuplicateInfo.score = None\<rparr>],
            originalCount = 3, uniqueCount = 2, removedCount = 1\<rparr>"
proof -
  have sg: "createSignature_store sampleRows 0 [''n''] = ''a''"
           "createSignature_store sampleRows (Suc 0) [''n''] = ''a''"
           "createSignature_store sampleRows 2 [''n''] = ''b''"
    by (simp_all add: createSignature_store_eq sampleRows_def eval_simps)
  have len: "length sampleRows = 3"
    by (simp add: sampleRows_def)
  have sl: "slice [0::nat, Suc 0, 2] 0 3 = [0, Suc 0, 2]"
    by (simp add: slice_def relativeIndex_def)
  have ex: "removeDuplicateRows_store sampleLib sampleRows [0, Suc 0, 2] [''n''] Exact t alg
              = (sampleRows,
                 \<lparr>uniqueRows = [0, 2],
                  duplicatesFound = [\<lparr>original = ''a'', duplicate = ''a'', originalIndex = 0,
                                      duplicateIndex = 1, DuplicateInfo.score = None\<rparr>]\<rparr>)"
    for t alg
    by (simp add: removeDuplicateRows_store_def removeExactDuplicates_store_def Let_def sg)
  show ?thesis
    by (simp add: pe_POST_store_def sampleRefRequest_def Let_def sl ex withIsni_store_alloc len)
qed

theorem input_records_unchanged_witness:
  "take 3 (fst (pe_POST_store sampleLib sampleRows sampleRefRequest)) = sampleRows
   \<and> snd (pe_POST_store sampleLib sampleRows sampleRefRequest)
       = JsonResponse
           \<lparr>uniqueRows = [3, 4],
            duplicatesFound = [\<lparr>original = ''a'', duplicate = ''a'', originalIndex = 0,
                                duplicateIndex = 1, DuplicateInfo.score = None\<rparr>],
            originalCount = 3, uniqueCount = 2, removedCount = 1\<rparr>
   \<and> length sampleRows = 3
   \<and> (\<exists>accepted. set accepted \<subseteq> {0, 1, 2} \<and> length accepted = 2
         \<and> (fst (pe_POST_store sampleLib sampleRows sampleRefRequest) ! 3) ''n''
             = (sampleRows ! (accepted ! 0)) ''n''
         \<and> dom (fst (pe_POST_store sampleLib sampleRows sampleRefRequest) ! 4)
             = insert ''isni'' (dom (sampleRows ! (accepted ! 1))))"
proof -
  let ?res = "\<lparr>uniqueRows = [3::nat, 4],
            duplicatesFound = [\<lparr>original = ''a'', duplicate = ''a'', originalIndex = 0,
                                duplicateIndex = 1, DuplicateInfo.score = None\<rparr>],
            originalCount = 3, uniqueCount = 2, removedCount = (1::int)\<rparr>"
  let ?S = "pe_POST_store sampleLib sampleRows sampleRefRequest"
  have len: "length sampleRows = 3"
    by (simp add: sampleRows_def)
  have d: "data sampleRefRequest = Some [0, 1, 2]"
    by (simp add: sampleRefRequest_def)
  have valid: "\<forall>a\<in>set [0, 1, 2]. a < length sampleRows"
    by (simp add: len)
  note out = sampleRefRequest_run
  note inst = input_records_unchanged [of sampleRows sampleLib sampleRefRequest]
  from inst have frame: "take 3 (fst ?S) = sampleRows"
    by (simp add: len)
  let ?P = "\<lambda>cols accepted.
            columns sampleRefRequest = Some cols
          \<and> set accepted \<subseteq> set [0, 1, 2]
          \<and> length (uniqueRows ?res) = length accepted
          \<and> (\<forall>k<length accepted.
                 length sampleRows \<le> uniqueRows ?res ! k
               \<and> uniqueRows ?res ! k < length (fst ?S)
               \<and> fst ?S ! (uniqueRows ?res ! k)
                   = (sampleRows ! (accepted ! k))
                       (''isni'' \<mapsto> JStr (isniAnnotation (sampleRows ! (accepted ! k)) cols))
               \<and> (\<forall>f. f \<noteq> ''isni'' \<longrightarrow>
                      (fst ?S ! (uniqueRows ?res ! k)) f = (sampleRows ! (accepted ! k)) f)
               \<and> dom (fst ?S ! (uniqueRows ?res ! k))
                   = insert ''isni'' (dom (sampleRows ! (accepted ! k))))"
  from inst have
    "\<forall>refs res.
         data sampleRefRequest = Some refs \<and> (\<forall>a\<in>set refs. a < length sampleRows)
         \<and> snd ?S = JsonResponse res \<longrightarrow>
        (\<exists>cols accepted.
            columns sampleRefRequest = Some cols
          \<and> set accepted \<subseteq> set refs
          \<and> length (uniqueRows res) = length accepted
          \<and> (\<forall>k<length accepted.
                 length sampleRows \<le> uniqueRows res ! k
               \<and> uniqueRows res ! k < length (fst ?S)
               \<and> fst ?S ! (uniqueRows res ! k)
                   = (sampleRows ! (accepted ! k))
                       (''isni'' \<mapsto> JStr (isniAnnotation (sampleRows ! (accepted ! k)) cols))
               \<and> (\<forall>f. f \<noteq> ''isni'' \<longrightarrow>
                      (fst ?S ! (uniqueRows res ! k)) f = (sampleRows ! (accepted ! k)) f)
               \<and> dom (fst ?S ! (uniqueRows res ! k))
                   = insert ''isni'' (dom (sampleRows ! (accepted ! k)))))"
    by (rule conjunct2 [OF conjunct2])
  from mp [OF spec [OF spec [OF this]] conjI [OF d conjI [OF valid out]]] have
    "\<exists>cols accepted. ?P cols accepted" .
  then obtain cols where "\<exists>accepted. ?P cols accepted" ..
  then obtain accepted where all: "?P cols accepted" ..
  from all have sub: "set accepted \<subseteq> set [0, 1, 2]"
    by (rule conjunct1 [OF conjunct2])
  from all have l: "length (uniqueRows ?res) = length accepted"
    by (rule conjunct1 [OF conjunct2 [OF conjunct2]])
  from all have k: "\<forall>k<length accepted.
                 length sampleRows \<le> uniqueRows ?res ! k
               \<and> uniqueRows ?res ! k < length (fst ?S)
               \<and> fst ?S ! (uniqueRows ?res ! k)
                   = (sampleRows ! (accepted ! k))
                       (''isni'' \<mapsto> JStr (isniAnnotation (sampleRows ! (accepted ! k)) cols))
               \<and> (\<forall>f. f \<noteq> ''isni'' \<longrightarrow>
                      (fst ?S ! (uniqueRows ?res ! k)) f = (sampleRows ! (accepted ! k)) f)
               \<and> dom (fst ?S ! (uniqueRows ?res ! k))
                   = insert ''isni'' (dom (sampleRows ! (accepted ! k)))"
    by (rule conjunct2 [OF conjunct2 [OF conjunct2]])
  from l have l2: "length accepted = 2"
    by simp
  from sub have sub': "set accepted \<subseteq> {0, 1, 2}"
    by simp
  from l2 have "0 < length accepted" and "1 < length accepted"
    by simp_all
  with k have
    f0: "\<forall>f. f \<noteq> ''isni'' \<longrightarrow> (fst ?S ! (uniqueRows ?res ! 0)) f = (sampleRows ! (accepted ! 0)) f"
    and d1: "dom (fst ?S ! (uniqueRows ?res ! 1)) = insert ''isni'' (dom (sampleRows ! (accepted ! 1)))"
    by blast+
  from f0 have k0: "(fst ?S ! 3) ''n'' = (sampleRows ! (accepted ! 0)) ''n''"
    by simp
  from d1 have k1: "dom (fst ?S ! 4) = insert ''isni'' (dom (sampleRows ! (accepted ! 1)))"
    by simp
  show ?thesis
    by (intro conjI exI [of _ accepted]) (fact frame out len sub' l2 k0 k1)+
qed

section \<open>An empty slice\<close>

lemma removeDuplicateRows_Nil:
  "removeDuplicateRows lib [] cols mode t alg = \<lparr>uniqueRows = [], duplicatesFound = []\<rparr>"
  by (simp add: removeDuplicateRows_def removeExactDuplicates_def removeFuzzyDuplicates_def)

lemma slice_start_beyond: "int (length xs) \<le> s \<Longrightarrow> slice xs s e = []"
  by (simp add: slice_def relativeIndex_def Let_def)

text \<open>
  C10. With non-empty data and a non-empty column selection, a slice that selects no row
  (for example a start at or beyond the length of the data, lemma \<open>slice_start_beyond\<close>)
  is not rejected: the handler answers with no unique rows, no duplicates,
  \<open>uniqueCount = 0\<close> and \<open>removedCount = originalCount\<close>, in either comparison mode. The
  emptiness check is made on the data before slicing.
\<close>

theorem empty_slice_succeeds:
  assumes "data body = Some rows" and "rows \<noteq> []"
    and "columns body = Some cols" and "cols \<noteq> []"
    and "slice rows (case sliceStart body of None \<Rightarrow> 0 | Some s \<Rightarrow> s)
               (case sliceEnd body of None \<Rightarrow> int (length rows) | Some e \<Rightarrow> e) = []"
  shows "pe_POST lib body
           = JsonResponse \<lparr>uniqueRows = [], duplicatesFound = [],
                           originalCount = int (length rows), uniqueCount = 0,
                           removedCount = int (length rows)\<rparr>"
  using assms by (simp add: pe_POST_def Let_def removeDuplicateRows_Nil)

theorem empty_slice_succeeds_witness:
  "\<forall>lib mode e. int (length sampleRows) \<le> 3
      \<and> pe_POST lib (sampleSlicedRequest mode (Some 3) e)
           = JsonResponse \<lparr>uniqueRows = [], duplicatesFound = [],
                           originalCount = 3, uniqueCount = 0, removedCount = 3\<rparr>"
proof (intro allI)
  fix lib mode e
  have len: "int (length sampleRows) = 3"
    by (simp add: sampleRows_def)
  have ne: "sampleRows \<noteq> []"
    by (simp add: sampleRows_def)
  have sl: "slice sampleRows 3 (case e of None \<Rightarrow> int (length sampleRows) | Some e' \<Rightarrow> e') = []"
    by (rule slice_start_beyond) (simp add: len)
  have "pe_POST lib (sampleSlicedRequest mode (Some 3) e)
           = JsonResponse \<lparr>uniqueRows = [], duplicatesFound = [],
                           originalCount = int (length sampleRows), uniqueCount = 0,
                           removedCount = int (length sampleRows)\<rparr>"
    by (rule empty_slice_succeeds [where rows = sampleRows and cols = "[''n'']"])
       (simp_all add: sampleSlicedRequest_def ne sl)
  then show "int (length sampleRows) \<le> 3
      \<and> pe_POST lib (sampleSlicedRequest mode (Some 3) e)
           = JsonResponse \<lparr>uniqueRows = [], duplicatesFound = [],
                           originalCount = 3, uniqueCount = 0, removedCount = 3\<rparr>"
    by (simp add: len)
qed

end
